theory Spec2Isabelle
  imports Complex_Main
begin

section \<open>Plot utilities of pyrsostf: a shallow embedding\<close>

text \<open>
  The module \<^verbatim>\<open>pyrsostf/plots/plot_utilities.py\<close> consists of two mismatch finders
  over label vectors and of plotting helpers that drive a plotting library. Vectors are
  lists, every exception of the source is a value of \<open>py_error\<close>, and a function that
  may raise returns \<open>py_error + 'a\<close> with \<open>Inl\<close> for the exception.
\<close>

subsection \<open>Errors\<close>

datatype py_error = ValueError | IndexError | AttributeError | ZeroDivisionError | TypeError

definition bindE :: "py_error + 'a \<Rightarrow> ('a \<Rightarrow> py_error + 'b) \<Rightarrow> py_error + 'b" where
  "bindE m f = (case m of Inl e \<Rightarrow> Inl e | Inr x \<Rightarrow> f x)"

subsection \<open>Vectors: comparison, \<open>where\<close> and index arrays\<close>

text \<open>
  \<^verbatim>\<open>labels != predictions\<close> on one-dimensional arrays compares element by element.
  Arrays of different lengths are broadcast when one of them has length one and are
  rejected with a ValueError otherwise.
\<close>

definition not_equal :: "int list \<Rightarrow> int list \<Rightarrow> py_error + bool list" where
  "not_equal a b =
     (if length a = length b then Inr (map (\<lambda>(x, y). x \<noteq> y) (zip a b))
      else if length b = 1 then Inr (map (\<lambda>x. x \<noteq> hd b) a)
      else if length a = 1 then Inr (map (\<lambda>y. hd a \<noteq> y) b)
      else Inl ValueError)"

text \<open>\<^verbatim>\<open>np.where(mask)[0]\<close>: the positions of the true entries, by a forward scan.\<close>

definition where0 :: "bool list \<Rightarrow> nat list" where
  "where0 flags = filter (\<lambda>i. flags ! i) [0..<length flags]"

text \<open>
  \<^verbatim>\<open>arr[idx]\<close> with an array of non-negative indices: one entry per index, and an
  IndexError as soon as one index is out of bounds.
\<close>

definition take_idx :: "'a list \<Rightarrow> nat list \<Rightarrow> py_error + 'a list" where
  "take_idx arr idx =
     (if list_all (\<lambda>i. i < length arr) idx then Inr (map (\<lambda>i. arr ! i) idx)
      else Inl IndexError)"

subsection \<open>The mismatch finders\<close>

definition find_wrong_predictions_cifar ::
  "int list \<Rightarrow> int list \<Rightarrow> py_error + (nat list \<times> int list \<times> int list)" where
  "find_wrong_predictions_cifar labels predictions =
     bindE (not_equal labels predictions) (\<lambda>flags.
       let wrong_indeces = where0 flags in
       bindE (take_idx predictions wrong_indeces) (\<lambda>wrong_labels.
       bindE (take_idx labels wrong_indeces) (\<lambda>correct_labels.
       Inr (wrong_indeces, wrong_labels, correct_labels))))"

definition find_wrong_predictions ::
  "int list \<Rightarrow> int list \<Rightarrow> 'img list \<Rightarrow>
     py_error + (nat list \<times> 'img list \<times> int list \<times> int list)" where
  "find_wrong_predictions labels predictions images =
     bindE (not_equal labels predictions) (\<lambda>flags.
       let wrong_indeces = where0 flags in
       bindE (take_idx images wrong_indeces) (\<lambda>wrong_images.
       bindE (take_idx predictions wrong_indeces) (\<lambda>wrong_labels.
       bindE (take_idx labels wrong_indeces) (\<lambda>correct_labels.
       Inr (wrong_indeces, wrong_images, wrong_labels, correct_labels)))))"

subsection \<open>Arrays with a shape\<close>

text \<open>
  An n-dimensional array is its shape and its entries in row-major order. Shapes handed
  to \<open>reshape\<close> are lists of naturals; the wildcard \<open>-1\<close> of the array library is not
  part of the model.
\<close>

record 'a ndarray =
  shape :: "nat list"
  elems :: "'a list"

definition wf_array :: "'a ndarray \<Rightarrow> bool" where
  "wf_array a = (length (elems a) = prod_list (shape a))"

text \<open>\<^verbatim>\<open>a.shape[k]\<close>: indexing the shape tuple.\<close>

definition shape_at :: "'a ndarray \<Rightarrow> nat \<Rightarrow> py_error + nat" where
  "shape_at a k = (if k < length (shape a) then Inr (shape a ! k) else Inl IndexError)"

text \<open>\<^verbatim>\<open>np.min\<close> and \<^verbatim>\<open>np.max\<close> have no value on an array without entries.\<close>

definition np_min :: "'a::linorder ndarray \<Rightarrow> py_error + 'a" where
  "np_min a = (case elems a of [] \<Rightarrow> Inl ValueError | x # xs \<Rightarrow> Inr (fold min xs x))"

definition np_max :: "'a::linorder ndarray \<Rightarrow> py_error + 'a" where
  "np_max a = (case elems a of [] \<Rightarrow> Inl ValueError | x # xs \<Rightarrow> Inr (fold max xs x))"

definition reshape :: "'a ndarray \<Rightarrow> nat list \<Rightarrow> py_error + 'a ndarray" where
  "reshape a s =
     (if prod_list s = length (elems a) then Inr \<lparr>shape = s, elems = elems a\<rparr>
      else Inl ValueError)"

text \<open>The \<open>k\<close>-th run of \<open>b\<close> consecutive entries.\<close>

definition block :: "'a list \<Rightarrow> nat \<Rightarrow> nat \<Rightarrow> 'a list" where
  "block xs b k = take b (drop (k * b) xs)"

text \<open>\<^verbatim>\<open>a[i]\<close> for a non-negative \<open>i\<close>.\<close>

definition row_at :: "'a ndarray \<Rightarrow> nat \<Rightarrow> py_error + 'a ndarray" where
  "row_at a i =
     (case shape a of
        [] \<Rightarrow> Inl IndexError
      | n # rest \<Rightarrow>
          if i < n then Inr \<lparr>shape = rest, elems = block (elems a) (prod_list rest) i\<rparr>
          else Inl IndexError)"

text \<open>\<^verbatim>\<open>a[i, :]\<close>: as \<^verbatim>\<open>a[i]\<close>, but two indices need two dimensions.\<close>

definition row_slice :: "'a ndarray \<Rightarrow> nat \<Rightarrow> py_error + 'a ndarray" where
  "row_slice a i = (if length (shape a) < 2 then Inl IndexError else row_at a i)"

text \<open>\<^verbatim>\<open>a[:, i]\<close> for a non-negative \<open>i\<close>.\<close>

definition col_slice :: "'a ndarray \<Rightarrow> nat \<Rightarrow> py_error + 'a ndarray" where
  "col_slice a i =
     (case shape a of
        n # m # rest \<Rightarrow>
          if i < m
          then Inr \<lparr>shape = n # rest,
                    elems = concat (map (\<lambda>r. block (elems a) (prod_list rest) (r * m + i))
                                      [0..<n])\<rparr>
          else Inl IndexError
      | _ \<Rightarrow> Inl IndexError)"

text \<open>A Python index into an axis of length \<open>n\<close>; negative indices count from the end.\<close>

definition py_index :: "nat \<Rightarrow> int \<Rightarrow> py_error + nat" where
  "py_index n i =
     (if 0 \<le> i \<and> i < int n then Inr (nat i)
      else if - int n \<le> i \<and> i < 0 then Inr (nat (i + int n))
      else Inl IndexError)"

text \<open>\<^verbatim>\<open>a[:, :, c, i]\<close> with a Python index \<open>c\<close> and a non-negative \<open>i\<close>.\<close>

definition filter_slice :: "'a ndarray \<Rightarrow> int \<Rightarrow> nat \<Rightarrow> py_error + 'a ndarray" where
  "filter_slice a c i =
     (case shape a of
        h # w # ci # f # rest \<Rightarrow>
          bindE (py_index ci c) (\<lambda>c'.
            if i < f
            then Inr \<lparr>shape = h # w # rest,
                      elems = concat (map (\<lambda>k. block (elems a) (prod_list rest)
                                                  ((k * ci + c') * f + i))
                                        [0..<h * w])\<rparr>
            else Inl IndexError)
      | _ \<Rightarrow> Inl IndexError)"

text \<open>
  \<^verbatim>\<open>a.T\<close> reverses the axes. The entry at flat position \<open>t\<close> of the result has, in the
  source array, the multi-index whose first component varies fastest in \<open>t\<close>.
\<close>

fun unravel_rev :: "nat list \<Rightarrow> nat \<Rightarrow> nat list" where
  "unravel_rev [] t = []"
| "unravel_rev (d # ds) t = (t mod d) # unravel_rev ds (t div d)"

fun ravel :: "nat list \<Rightarrow> nat list \<Rightarrow> nat \<Rightarrow> nat" where
  "ravel (d # ds) (i # js) acc = ravel ds js (acc * d + i)"
| "ravel _ _ acc = acc"

definition transpose_array :: "'a ndarray \<Rightarrow> 'a ndarray" where
  "transpose_array a =
     \<lparr>shape = rev (shape a),
      elems = map (\<lambda>t. elems a ! ravel (shape a) (unravel_rev (shape a) t) 0)
                [0..<length (elems a)]\<rparr>"

text \<open>\<^verbatim>\<open>xs[i]\<close> on a sequence, for a non-negative \<open>i\<close>.\<close>

definition list_get :: "'a list \<Rightarrow> nat \<Rightarrow> py_error + 'a" where
  "list_get xs i = (if i < length xs then Inr (xs ! i) else Inl IndexError)"

subsection \<open>Numbers: formatting and grid sizes\<close>

text \<open>\<^verbatim>\<open>"{}".format(n)\<close> for an integer: its decimal digits.\<close>

fun str_nat :: "nat \<Rightarrow> string" where
  "str_nat n =
     (if n < 10 then [''0123456789'' ! n]
      else str_nat (n div 10) @ [''0123456789'' ! (n mod 10)])"

declare str_nat.simps [simp del]

definition str_int :: "int \<Rightarrow> string" where
  "str_int i = (if i < 0 then ''-'' @ str_nat (nat (- i)) else str_nat (nat i))"

text \<open>\<^verbatim>\<open>np.arange(n)\<close> and \<^verbatim>\<open>range(n)\<close> for an integer \<open>n\<close>; empty when \<open>n\<close> is not positive.\<close>

definition arange :: "int \<Rightarrow> nat list" where
  "arange n = [0..<nat n]"

text \<open>
  \<^verbatim>\<open>int(np.ceil(np.sqrt(n)))\<close>. The source computes the root in double precision; the
  model takes the exact value, the least \<open>k\<close> with \<open>n \<le> k * k\<close>, which is what the
  double-precision computation returns as long as \<open>n\<close> is below \<open>2^52\<close>.
\<close>

function sqrt_search :: "nat \<Rightarrow> nat \<Rightarrow> nat" where
  "sqrt_search n k = (if n \<le> k * k then k else sqrt_search n (Suc k))"
  by pat_completeness auto
termination
proof (relation "measure (\<lambda>(n, k). n - k)")
  show "wf (measure (\<lambda>(n, k). n - k))" by simp
next
  fix n k :: nat
  assume "\<not> n \<le> k * k"
  then have "k * k < n" by simp
  moreover have "k \<le> k * k" by (cases k) simp_all
  ultimately have "k < n" by linarith
  then show "((n, Suc k), (n, k)) \<in> measure (\<lambda>(n, k). n - k)" by simp
qed

declare sqrt_search.simps [simp del]

definition ceil_sqrt :: "nat \<Rightarrow> nat" where
  "ceil_sqrt n = sqrt_search n 0"

text \<open>
  \<^verbatim>\<open>int(np.ceil(n * 1.0 / d))\<close> for Python integers \<open>n\<close> and \<open>d\<close>: the float division
  raises ZeroDivisionError for \<open>d = 0\<close>; otherwise the model takes the exact quotient
  rounded up.
\<close>

definition ceil_div :: "nat \<Rightarrow> nat \<Rightarrow> py_error + nat" where
  "ceil_div n d = (if d = 0 then Inl ZeroDivisionError else Inr ((n + d - 1) div d))"

subsection \<open>Figures, panels and the plotting calls\<close>

text \<open>
  The plotting library is an external collaborator. The model keeps, per panel (an
  \<^verbatim>\<open>Axes\<close> object), what the calls of the source leave there: the images drawn, the bar
  charts drawn, the texts handed to the label setters (oldest first; the last one is
  displayed), and the tick positions and tick texts (\<open>None\<close> while the library's
  default ticks are in place).
\<close>

record 'a image_call =
  img_data :: "'a ndarray"
  img_vmin :: "'a option"
  img_vmax :: "'a option"
  img_cmap :: "string option"
  img_interpolation :: "string option"
  img_aspect :: "string option"

record 'a bar_call =
  bar_x :: "nat list"
  bar_height :: "'a list"
  bar_color :: "string list"

record 'a axes_state =
  ax_images :: "'a image_call list"
  ax_bars :: "'a bar_call list"
  ax_xlabels :: "string list"
  ax_ylabels :: "string list"
  ax_xticks :: "nat list option"
  ax_yticks :: "nat list option"
  ax_xticklabels :: "string list option"
  ax_yticklabels :: "string list option"

definition blank_axes :: "'a axes_state" where
  "blank_axes = \<lparr>ax_images = [], ax_bars = [], ax_xlabels = [], ax_ylabels = [],
     ax_xticks = None, ax_yticks = None, ax_xticklabels = None, ax_yticklabels = None\<rparr>"

definition displayed_xlabel :: "'a axes_state \<Rightarrow> string option" where
  "displayed_xlabel ax = (if ax_xlabels ax = [] then None else Some (last (ax_xlabels ax)))"

definition displayed_ylabel :: "'a axes_state \<Rightarrow> string option" where
  "displayed_ylabel ax = (if ax_ylabels ax = [] then None else Some (last (ax_ylabels ax)))"

text \<open>
  A figure: the grid geometry, the spacing and margins set on it, the panels created so
  far (\<open>fig_axes\<close>, in creation order) with the grid cell each one occupies (\<open>fig_cells\<close>,
  row-major cell numbers), and what was done with the figure as a whole.
\<close>

record 'a figure =
  fig_rows :: nat
  fig_cols :: nat
  fig_hspace :: "real option"
  fig_wspace :: "real option"
  fig_margins :: "(real \<times> real \<times> real \<times> real) option"
  fig_cells :: "nat list"
  fig_axes :: "'a axes_state list"
  fig_tight :: bool
  fig_colorbar :: bool
  fig_shown :: bool
  fig_saved :: "string list"

definition new_figure :: "nat \<Rightarrow> nat \<Rightarrow> 'a figure" where
  "new_figure r c = \<lparr>fig_rows = r, fig_cols = c, fig_hspace = None, fig_wspace = None,
     fig_margins = None, fig_cells = [], fig_axes = [], fig_tight = False,
     fig_colorbar = False, fig_shown = False, fig_saved = []\<rparr>"

text \<open>
  \<^verbatim>\<open>plt.subplots(r, c)\<close> creates all \<open>r * c\<close> panels and returns them squeezed: one
  panel alone is returned as that object, one row or one column as a one-dimensional
  array, anything else as a two-dimensional array. A grid without rows or columns is
  rejected. Panels are named by their position in \<open>fig_axes\<close>.
\<close>

datatype axes_array = AxScalar nat | Ax1D "nat list" | Ax2D "nat list list"

definition subplots :: "nat \<Rightarrow> nat \<Rightarrow> py_error + ('a figure \<times> axes_array)" where
  "subplots r c =
     (if r = 0 \<or> c = 0 then Inl ValueError
      else Inr ((new_figure r c)\<lparr>fig_cells := [0..<r * c],
                                  fig_axes := replicate (r * c) blank_axes\<rparr>,
                if r = 1 \<and> c = 1 then AxScalar 0
                else if r = 1 \<or> c = 1 then Ax1D [0..<r * c]
                else Ax2D (map (\<lambda>i. map (\<lambda>j. i * c + j) [0..<c]) [0..<r])))"

definition subplots_adjust :: "real \<Rightarrow> real \<Rightarrow> 'a figure \<Rightarrow> 'a figure" where
  "subplots_adjust hspace wspace fig = fig\<lparr>fig_hspace := Some hspace, fig_wspace := Some wspace\<rparr>"

text \<open>\<^verbatim>\<open>axes.flat\<close>: an attribute of arrays, which a single panel object does not have.\<close>

definition flat :: "axes_array \<Rightarrow> py_error + nat list" where
  "flat axes =
     (case axes of
        AxScalar a \<Rightarrow> Inl AttributeError
      | Ax1D xs \<Rightarrow> Inr xs
      | Ax2D rows \<Rightarrow> Inr (concat rows))"

text \<open>\<^verbatim>\<open>axes[:, j]\<close>: two indices need a two-dimensional array.\<close>

definition column :: "axes_array \<Rightarrow> nat \<Rightarrow> py_error + nat list" where
  "column axes j =
     (case axes of
        AxScalar a \<Rightarrow> Inl TypeError
      | Ax1D xs \<Rightarrow> Inl IndexError
      | Ax2D rows \<Rightarrow>
          if list_all (\<lambda>r. j < length r) rows then Inr (map (\<lambda>r. r ! j) rows)
          else Inl IndexError)"

text \<open>
  \<^verbatim>\<open>GridSpec(r, c, top=1., bottom=0., right=1., left=0., hspace=0., wspace=0.)\<close>:
  a grid on a figure that has no panel yet. Iterating over it yields its cells
  \<open>0, \<dots>, r * c - 1\<close>.
\<close>

definition gridspec :: "nat \<Rightarrow> nat \<Rightarrow> py_error + 'a figure" where
  "gridspec r c =
     (if r = 0 \<or> c = 0 then Inl ValueError
      else Inr ((new_figure r c)\<lparr>fig_hspace := Some 0, fig_wspace := Some 0,
                                  fig_margins := Some (1, 0, 1, 0)\<rparr>))"

definition grid_cells :: "'a figure \<Rightarrow> nat list" where
  "grid_cells fig = [0..<fig_rows fig * fig_cols fig]"

text \<open>
  \<^verbatim>\<open>imshow\<close> accepts image data of shape (M, N), (M, N, 1), (M, N, 3) or (M, N, 4)
  and raises a TypeError for any other shape.
\<close>

definition image_shape_ok :: "nat list \<Rightarrow> bool" where
  "image_shape_ok s =
     (length s = 2 \<or> (length s = 3 \<and> (s ! 2 = 1 \<or> s ! 2 = 3 \<or> s ! 2 = 4)))"

definition imshow :: "'a image_call \<Rightarrow> 'a axes_state \<Rightarrow> py_error + 'a axes_state" where
  "imshow c ax =
     (if image_shape_ok (shape (img_data c)) then Inr (ax\<lparr>ax_images := ax_images ax @ [c]\<rparr>)
      else Inl TypeError)"

definition plain_image :: "'a ndarray \<Rightarrow> 'a image_call" where
  "plain_image a = \<lparr>img_data = a, img_vmin = None, img_vmax = None, img_cmap = None,
     img_interpolation = None, img_aspect = None\<rparr>"

definition set_xlabel :: "string \<Rightarrow> 'a axes_state \<Rightarrow> 'a axes_state" where
  "set_xlabel s ax = ax\<lparr>ax_xlabels := ax_xlabels ax @ [s]\<rparr>"

definition set_xticks :: "nat list \<Rightarrow> 'a axes_state \<Rightarrow> 'a axes_state" where
  "set_xticks t ax = ax\<lparr>ax_xticks := Some t\<rparr>"

definition set_yticks :: "nat list \<Rightarrow> 'a axes_state \<Rightarrow> 'a axes_state" where
  "set_yticks t ax = ax\<lparr>ax_yticks := Some t\<rparr>"

text \<open>\<^verbatim>\<open>plt.xticks(positions, labels)\<close> and \<^verbatim>\<open>plt.yticks(positions, labels)\<close>.\<close>

definition plt_xticks :: "nat list \<Rightarrow> string list \<Rightarrow> 'a axes_state \<Rightarrow> 'a axes_state" where
  "plt_xticks t l ax = ax\<lparr>ax_xticks := Some t, ax_xticklabels := Some l\<rparr>"

definition plt_yticks :: "nat list \<Rightarrow> string list \<Rightarrow> 'a axes_state \<Rightarrow> 'a axes_state" where
  "plt_yticks t l ax = ax\<lparr>ax_yticks := Some t, ax_yticklabels := Some l\<rparr>"

text \<open>
  \<^verbatim>\<open>ax.bar(x, height, color=colors)\<close> broadcasts the positions and the heights against
  each other by the array library's rule: equal lengths, or one of them of length one,
  which is then repeated; any other pair of lengths is a shape mismatch (ValueError).
\<close>

definition bar ::
  "nat list \<Rightarrow> 'a list \<Rightarrow> string list \<Rightarrow> 'a axes_state \<Rightarrow> py_error + 'a axes_state" where
  "bar x height colors ax =
     (if length height = length x
      then Inr (ax\<lparr>ax_bars := ax_bars ax @
                  [\<lparr>bar_x = x, bar_height = height, bar_color = colors\<rparr>]\<rparr>)
      else if length height = 1
      then Inr (ax\<lparr>ax_bars := ax_bars ax @
                  [\<lparr>bar_x = x, bar_height = replicate (length x) (hd height),
                    bar_color = colors\<rparr>]\<rparr>)
      else if length x = 1
      then Inr (ax\<lparr>ax_bars := ax_bars ax @
                  [\<lparr>bar_x = replicate (length height) (hd x), bar_height = height,
                    bar_color = colors\<rparr>]\<rparr>)
      else Inl ValueError)"

definition plt_show :: "'a figure \<Rightarrow> 'a figure" where
  "plt_show fig = fig\<lparr>fig_shown := True\<rparr>"

definition savefig :: "string \<Rightarrow> 'a figure \<Rightarrow> 'a figure" where
  "savefig name fig = fig\<lparr>fig_saved := fig_saved fig @ [name]\<rparr>"

subsection \<open>Loops over panels\<close>

text \<open>
  \<^verbatim>\<open>for i, ax in enumerate(panels): body\<close>: the body works on the panel \<open>ax\<close> of the
  store and the first exception ends the loop.
\<close>

fun for_axes ::
  "(nat \<Rightarrow> 'p \<Rightarrow> py_error + 'p) \<Rightarrow> (nat \<times> nat) list \<Rightarrow> 'p list \<Rightarrow> py_error + 'p list" where
  "for_axes body [] st = Inr st"
| "for_axes body ((i, a) # rest) st =
     bindE (body i (st ! a)) (\<lambda>p. for_axes body rest (st[a := p]))"

text \<open>
  \<^verbatim>\<open>for dim, count in zip(grid, range(n)): ax = plt.subplot(dim); body\<close>: every round
  creates the panel of the cell \<open>dim\<close> and draws entry \<open>count\<close> into it.
\<close>

fun for_cells ::
  "(nat \<Rightarrow> py_error + 'p) \<Rightarrow> (nat \<times> nat) list \<Rightarrow> (nat \<times> 'p) list \<Rightarrow>
     py_error + (nat \<times> 'p) list" where
  "for_cells body [] acc = Inr acc"
| "for_cells body ((cell, count) # rest) acc =
     bindE (body count) (\<lambda>ax. for_cells body rest (acc @ [(cell, ax)]))"

subsection \<open>The plotting helpers\<close>

definition bar_colors :: "string list" where
  "bar_colors = [''b'', ''r'', ''g'', ''m'', ''c'', ''y'', ''k'', ''b'', ''r'', ''g'']"

text \<open>The body of the first loop of \<open>plot_images\<close>: the image panel of row \<open>i\<close>.\<close>

definition image_panel ::
  "'a ndarray \<Rightarrow> int list \<Rightarrow> int list \<Rightarrow> nat list \<Rightarrow> bool \<Rightarrow> nat \<Rightarrow> 'a axes_state \<Rightarrow>
     py_error + 'a axes_state" where
  "image_panel images cls_true cls_pred img_shape reshape_arg i subfig =
     bindE (row_at images i) (\<lambda>image.
     bindE (if reshape_arg
            then bindE (reshape image img_shape) (\<lambda>shaped.
                   imshow \<lparr>img_data = shaped, img_vmin = None, img_vmax = None,
                           img_cmap = Some ''binary'', img_interpolation = None,
                           img_aspect = Some ''auto''\<rparr> subfig)
            else imshow (plain_image image) subfig) (\<lambda>subfig.
     bindE (list_get cls_true i) (\<lambda>t.
     bindE (list_get cls_pred i) (\<lambda>p.
     let xlabel = ''True: '' @ str_int t @ '', Pred: '' @ str_int p in
     Inr (set_yticks [] (set_xticks [] (set_xlabel xlabel subfig)))))))"

text \<open>The body of the second and of the third loop: the bar chart of row \<open>i\<close>.\<close>

definition bar_panel :: "'a list list \<Rightarrow> nat \<Rightarrow> 'a axes_state \<Rightarrow> py_error + 'a axes_state" where
  "bar_panel scores i subfig =
     bindE (list_get scores i) (\<lambda>height.
     bindE (bar (arange 10) height bar_colors subfig) (\<lambda>subfig.
     Inr (set_yticks [] (set_xticks (arange 10) subfig))))"

definition plot_images ::
  "'a ndarray \<Rightarrow> 'a list list \<Rightarrow> 'a list list \<Rightarrow> int list \<Rightarrow> int list \<Rightarrow> nat list \<Rightarrow> bool \<Rightarrow>
     py_error + 'a figure" where
  "plot_images images y_pred logits cls_true cls_pred img_shape reshape_arg =
     bindE (shape_at images 0) (\<lambda>n.
     bindE (subplots n 3) (\<lambda>(fig, axes).
     let fig = subplots_adjust (1 / 2) (1 / 2) fig in
     bindE (column axes 0) (\<lambda>col0.
     bindE (for_axes (image_panel images cls_true cls_pred img_shape reshape_arg)
              (enumerate 0 col0) (fig_axes fig)) (\<lambda>axs.
     bindE (column axes 1) (\<lambda>col1.
     bindE (for_axes (bar_panel y_pred) (enumerate 0 col1) axs) (\<lambda>axs.
     bindE (column axes 2) (\<lambda>col2.
     bindE (for_axes (bar_panel logits) (enumerate 0 col2) axs) (\<lambda>axs.
     Inr (plt_show (fig\<lparr>fig_axes := axs\<rparr>))))))))))"

text \<open>
  \<open>print_confusion_matrix\<close>. The routine that computes the matrix belongs to an external
  library and is a parameter of the model. The pyplot calls act on the one panel that
  \<^verbatim>\<open>plt.imshow\<close> creates.
\<close>

definition print_confusion_matrix ::
  "(int list \<Rightarrow> int list \<Rightarrow> py_error + int ndarray) \<Rightarrow> int list \<Rightarrow> int list \<Rightarrow> int \<Rightarrow>
     py_error + int figure" where
  "print_confusion_matrix confusion_matrix labels predictions num_classes =
     bindE (confusion_matrix labels predictions) (\<lambda>conf_mat.
     bindE (imshow \<lparr>img_data = conf_mat, img_vmin = None, img_vmax = None,
                    img_cmap = Some ''Blues'', img_interpolation = Some ''nearest'',
                    img_aspect = None\<rparr> blank_axes) (\<lambda>ax.
     let fig = (new_figure 1 1)\<lparr>fig_cells := [0], fig_tight := True, fig_colorbar := True\<rparr>;
         tick_marks = arange num_classes;
         ax = plt_xticks tick_marks (map str_nat (arange num_classes)) ax;
         ax = plt_yticks tick_marks (map str_nat (arange num_classes)) ax;
         ax = set_xlabel ''Predicted'' ax;
         ax = set_xlabel ''True'' ax
     in Inr (plt_show (fig\<lparr>fig_axes := [ax]\<rparr>))))"

text \<open>The loop body of \<open>plot_weights\<close> for panel \<open>i\<close>.\<close>

definition weights_panel ::
  "'a ndarray \<Rightarrow> nat list \<Rightarrow> 'a \<Rightarrow> 'a \<Rightarrow> nat \<Rightarrow> 'a axes_state \<Rightarrow> py_error + 'a axes_state" where
  "weights_panel weights img_shape w_min w_max i axes =
     bindE (if i < 10
            then bindE (col_slice weights i) (\<lambda>column_i.
                 bindE (reshape column_i img_shape) (\<lambda>image.
                 imshow \<lparr>img_data = image, img_vmin = Some w_min, img_vmax = Some w_max,
                         img_cmap = Some ''seismic'', img_interpolation = None,
                         img_aspect = None\<rparr>
                   (set_xlabel (''Weights: '' @ str_nat i) axes)))
            else Inr axes) (\<lambda>axes.
     Inr (set_yticks [] (set_xticks [] axes)))"

definition plot_weights :: "'a::linorder ndarray \<Rightarrow> nat list \<Rightarrow> py_error + 'a figure" where
  "plot_weights weights img_shape =
     bindE (np_min weights) (\<lambda>w_min.
     bindE (np_max weights) (\<lambda>w_max.
     bindE (subplots 3 4) (\<lambda>(fig, axes).
     let fig = subplots_adjust (3 / 10) (3 / 10) fig in
     bindE (flat axes) (\<lambda>panels.
     bindE (for_axes (weights_panel weights img_shape w_min w_max)
              (enumerate 0 panels) (fig_axes fig)) (\<lambda>axs.
     Inr (plt_show (fig\<lparr>fig_axes := axs\<rparr>)))))))"

text \<open>The loop body of \<open>plot_conv_weights\<close> for panel \<open>i\<close>.\<close>

definition conv_weights_panel ::
  "'a ndarray \<Rightarrow> int \<Rightarrow> nat \<Rightarrow> 'a \<Rightarrow> 'a \<Rightarrow> nat \<Rightarrow> 'a axes_state \<Rightarrow> py_error + 'a axes_state" where
  "conv_weights_panel weights input_channel num_filters w_min w_max i ax =
     bindE (if i < num_filters
            then bindE (filter_slice weights input_channel i) (\<lambda>img.
                 imshow \<lparr>img_data = img, img_vmin = Some w_min, img_vmax = Some w_max,
                         img_cmap = Some ''seismic'', img_interpolation = Some ''nearest'',
                         img_aspect = None\<rparr> ax)
            else Inr ax) (\<lambda>ax.
     Inr (set_yticks [] (set_xticks [] ax)))"

text \<open>
  \<open>plot_conv_weights\<close>; the argument \<open>input_channel\<close> is \<open>None\<close> when the caller leaves
  it out, and then takes its default \<open>0\<close>.
\<close>

definition plot_conv_weights :: "'a::linorder ndarray \<Rightarrow> int option \<Rightarrow> py_error + 'a figure" where
  "plot_conv_weights weights input_channel_arg =
     (let input_channel = (case input_channel_arg of None \<Rightarrow> 0 | Some c \<Rightarrow> c) in
      bindE (np_min weights) (\<lambda>w_min.
      bindE (np_max weights) (\<lambda>w_max.
      bindE (shape_at weights 3) (\<lambda>num_filters.
      let num_grids = ceil_sqrt num_filters in
      bindE (subplots num_grids num_grids) (\<lambda>(fig, axes).
      bindE (flat axes) (\<lambda>panels.
      bindE (for_axes (conv_weights_panel weights input_channel num_filters w_min w_max)
               (enumerate 0 panels) (fig_axes fig)) (\<lambda>axs.
      Inr (plt_show (fig\<lparr>fig_axes := axs\<rparr>)))))))))"

text \<open>\<^verbatim>\<open>a[0, :, :, i]\<close> for a non-negative \<open>i\<close>.\<close>

definition layer_slice :: "'a ndarray \<Rightarrow> nat \<Rightarrow> py_error + 'a ndarray" where
  "layer_slice a i =
     (case shape a of
        b # h # w # f # rest \<Rightarrow>
          if 0 < b \<and> i < f
          then Inr \<lparr>shape = h # w # rest,
                    elems = concat (map (\<lambda>k. block (elems a) (prod_list rest) (k * f + i))
                                      [0..<h * w])\<rparr>
          else Inl IndexError
      | _ \<Rightarrow> Inl IndexError)"

text \<open>The loop body of \<open>plot_conv_layer\<close> for panel \<open>i\<close>.\<close>

definition conv_layer_panel ::
  "'a ndarray \<Rightarrow> nat \<Rightarrow> nat \<Rightarrow> 'a axes_state \<Rightarrow> py_error + 'a axes_state" where
  "conv_layer_panel layer_output num_filters i ax =
     bindE (if i < num_filters
            then bindE (layer_slice layer_output i) (\<lambda>img.
                 imshow \<lparr>img_data = img, img_vmin = None, img_vmax = None,
                         img_cmap = Some ''binary'', img_interpolation = Some ''nearest'',
                         img_aspect = None\<rparr> ax)
            else Inr ax) (\<lambda>ax.
     Inr (set_yticks [] (set_xticks [] ax)))"

definition plot_conv_layer :: "'a ndarray \<Rightarrow> py_error + 'a figure" where
  "plot_conv_layer layer_output =
     bindE (shape_at layer_output 3) (\<lambda>num_filters.
     let num_grids = ceil_sqrt num_filters in
     bindE (subplots num_grids num_grids) (\<lambda>(fig, axes).
     bindE (flat axes) (\<lambda>panels.
     bindE (for_axes (conv_layer_panel layer_output num_filters)
              (enumerate 0 panels) (fig_axes fig)) (\<lambda>axs.
     Inr (plt_show (fig\<lparr>fig_axes := axs\<rparr>))))))"

text \<open>The grid of \<open>save_image_collection\<close> for \<open>dimensions\<close> images.\<close>

definition image_grid :: "nat \<Rightarrow> py_error + (nat \<times> nat)" where
  "image_grid dimensions =
     (let n_image_rows = ceil_sqrt dimensions in
      bindE (ceil_div dimensions n_image_rows) (\<lambda>n_image_cols.
      Inr (n_image_rows, n_image_cols)))"

text \<open>The loop body of \<open>save_image_collection\<close>: the panel for image \<open>count\<close>.\<close>

definition collection_panel :: "'a ndarray \<Rightarrow> nat \<Rightarrow> py_error + 'a axes_state" where
  "collection_panel images count =
     bindE (row_slice images count) (\<lambda>row.
     bindE (reshape row [28, 28]) (\<lambda>image.
     bindE (imshow (plain_image image) blank_axes) (\<lambda>ax.
     Inr (set_yticks [] (set_xticks [] ax)))))"

text \<open>
  \<open>save_image_collection\<close>, on a figure without panels. Writing the file is the last
  step; the model records the name handed to \<^verbatim>\<open>savefig\<close>.
\<close>

definition save_image_collection :: "'a ndarray \<Rightarrow> string \<Rightarrow> py_error + 'a figure" where
  "save_image_collection images filename =
     bindE (shape_at images 0) (\<lambda>dimensions.
     bindE (image_grid dimensions) (\<lambda>(n_image_rows, n_image_cols).
     bindE (gridspec n_image_rows n_image_cols) (\<lambda>grid.
     bindE (for_cells (collection_panel images)
              (zip (grid_cells grid) [0..<dimensions]) []) (\<lambda>drawn.
     Inr (savefig (filename @ ''_vis.png'')
            (grid\<lparr>fig_cells := map fst drawn, fig_axes := map snd drawn\<rparr>))))))"

text \<open>The loop body of \<open>plot_autoencoder_weights\<close>: the panel for row \<open>count\<close>.\<close>

definition autoencoder_panel :: "'a ndarray \<Rightarrow> nat \<Rightarrow> py_error + 'a axes_state" where
  "autoencoder_panel weights count =
     bindE (row_slice weights count) (\<lambda>row.
     bindE (reshape row [28, 28]) (\<lambda>image.
     bindE (imshow \<lparr>img_data = image, img_vmin = None, img_vmax = None,
                    img_cmap = Some ''binary'', img_interpolation = None,
                    img_aspect = None\<rparr> blank_axes) (\<lambda>ax.
     Inr (set_yticks [] (set_xticks [] ax)))))"

text \<open>
  \<open>plot_autoencoder_weights\<close>: the grid sizes are computed as in
  \<open>save_image_collection\<close>, but the grid is created with 10 rows and 10 columns.
\<close>

definition plot_autoencoder_weights :: "'a ndarray \<Rightarrow> py_error + 'a figure" where
  "plot_autoencoder_weights weights_arg =
     (let weights = transpose_array weights_arg in
      bindE (shape_at weights 1) (\<lambda>dimensions.
      bindE (image_grid dimensions) (\<lambda>(n_image_rows, n_image_cols).
      bindE (gridspec 10 10) (\<lambda>grid.
      bindE (for_cells (autoencoder_panel weights)
               (zip (grid_cells grid) [0..<dimensions]) []) (\<lambda>drawn.
      Inr (plt_show (grid\<lparr>fig_cells := map fst drawn, fig_axes := map snd drawn\<rparr>)))))))"

section \<open>Error propagation and loops\<close>

lemma bindE_Inr [simp]: "bindE (Inr x) f = f x"
  by (simp add: bindE_def)

lemma bindE_Inl [simp]: "bindE (Inl e) f = Inl e"
  by (simp add: bindE_def)

lemma bindE_eq_Inr:
  "bindE m f = Inr y \<longleftrightarrow> (\<exists>x. m = Inr x \<and> f x = Inr y)"
  by (cases m) simp_all

text \<open>
  A loop over distinct panels that ends without an exception has run its body on every
  panel it visits, on the state the panel had before the loop, and has left every other
  panel alone.
\<close>

lemma for_axes_Inr:
  assumes "for_axes body ps st = Inr st'" and "distinct (map snd ps)"
  shows "length st' = length st
    \<and> (\<forall>(i, a) \<in> set ps. a < length st \<longrightarrow> body i (st ! a) = Inr (st' ! a))
    \<and> (\<forall>a. a \<notin> snd ` set ps \<longrightarrow> st' ! a = st ! a)"
  using assms
proof (induction ps arbitrary: st)
  case Nil
  then show ?case by simp
next
  case (Cons x ps)
  obtain i a where x: "x = (i, a)" by (cases x)
  from Cons.prems(1) obtain p where p: "body i (st ! a) = Inr p"
    and rest: "for_axes body ps (st[a := p]) = Inr st'"
    by (auto simp: x bindE_eq_Inr)
  from Cons.prems(2) have d: "distinct (map snd ps)" and fresh: "a \<notin> snd ` set ps"
    by (simp_all add: x)
  note IH = Cons.IH [OF rest d]
  have len: "length st' = length st" using IH by simp
  have here: "a < length st \<longrightarrow> body i (st ! a) = Inr (st' ! a)"
    using IH fresh p by simp
  have others: "\<forall>(j, b) \<in> set ps. b < length st \<longrightarrow> body j (st ! b) = Inr (st' ! b)"
  proof (clarify)
    fix j b assume jb: "(j, b) \<in> set ps" and b: "b < length st"
    then have "b \<noteq> a" using fresh by force
    moreover have "body j (st[a := p] ! b) = Inr (st' ! b)"
      using IH jb b by auto
    ultimately show "body j (st ! b) = Inr (st' ! b)" by simp
  qed
  have unchanged: "\<forall>b. b \<notin> snd ` set (x # ps) \<longrightarrow> st' ! b = st ! b"
  proof (clarify)
    fix b assume "b \<notin> snd ` set (x # ps)"
    then have "b \<noteq> a" and "b \<notin> snd ` set ps" by (auto simp: x)
    then show "st' ! b = st ! b" using IH by simp
  qed
  from len here others unchanged show ?case by (simp add: x)
qed

lemma for_axes_success:
  assumes "distinct (map snd ps)"
    and "\<forall>(i, a) \<in> set ps. a < length st \<and> \<not> isl (body i (st ! a))"
  shows "\<not> isl (for_axes body ps st)"
  using assms
proof (induction ps arbitrary: st)
  case Nil
  then show ?case by simp
next
  case (Cons x ps)
  obtain i a where x: "x = (i, a)" by (cases x)
  from Cons.prems(2) obtain p where p: "body i (st ! a) = Inr p"
    by (cases "body i (st ! a)") (auto simp: x)
  from Cons.prems(1) have d: "distinct (map snd ps)" and fresh: "a \<notin> snd ` set ps"
    by (simp_all add: x)
  have "\<forall>(j, b) \<in> set ps. b < length (st[a := p]) \<and> \<not> isl (body j (st[a := p] ! b))"
  proof (clarify)
    fix j b assume jb: "(j, b) \<in> set ps"
    then have "b \<noteq> a" using fresh by force
    then show "b < length (st[a := p]) \<and> \<not> isl (body j (st[a := p] ! b))"
      using Cons.prems(2) jb by (auto simp: x)
  qed
  from Cons.IH [OF d this] show ?case by (simp add: x p)
qed

lemma for_cells_Inr:
  "for_cells body ps acc = Inr res \<longleftrightarrow>
     (\<forall>(c, n) \<in> set ps. \<not> isl (body n))
     \<and> res = acc @ map (\<lambda>(c, n). (c, projr (body n))) ps"
proof (induction ps arbitrary: acc)
  case Nil
  then show ?case by auto
next
  case (Cons x ps)
  obtain c n where x: "x = (c, n)" by (cases x)
  show ?case
  proof (cases "body n")
    case (Inl e)
    then show ?thesis by (simp add: x)
  next
    case (Inr ax)
    then show ?thesis by (simp add: x Cons.IH)
  qed
qed

lemma for_cells_Inl:
  assumes "k < length ps" and "body (snd (ps ! k)) = Inl e"
    and "\<forall>j < k. \<not> isl (body (snd (ps ! j)))"
  shows "for_cells body ps acc = Inl e"
  using assms
proof (induction ps arbitrary: acc k)
  case Nil
  then show ?case by simp
next
  case (Cons x ps)
  obtain c n where x: "x = (c, n)" by (cases x)
  show ?case
  proof (cases k)
    case 0
    with Cons.prems show ?thesis by (simp add: x)
  next
    case (Suc k')
    from Cons.prems(3) have "\<not> isl (body (snd ((x # ps) ! 0)))" using Suc by blast
    then obtain ax where ax: "body n = Inr ax" by (cases "body n") (auto simp: x)
    have "for_cells body ps (acc @ [(c, ax)]) = Inl e"
    proof (rule Cons.IH)
      show "k' < length ps" using Cons.prems(1) Suc by simp
      show "body (snd (ps ! k')) = Inl e" using Cons.prems(2) Suc by simp
      show "\<forall>j<k'. \<not> isl (body (snd (ps ! j)))"
        using Cons.prems(3) Suc by auto
    qed
    then show ?thesis by (simp add: x ax)
  qed
qed

section \<open>Properties of the mismatch finders\<close>

lemma where0_not_equal:
  assumes "length a = length b"
  shows "where0 (map (\<lambda>(x, y). x \<noteq> y) (zip a b)) = filter (\<lambda>i. a ! i \<noteq> b ! i) [0..<length a]"
  using assms unfolding where0_def
  by (auto intro: filter_cong)

lemma take_idx_in_range:
  assumes "\<forall>i \<in> set idx. i < length arr"
  shows "take_idx arr idx = Inr (map (\<lambda>i. arr ! i) idx)"
  using assms by (simp add: take_idx_def list_all_iff)

lemma take_idx_Nil [simp]: "take_idx arr [] = Inr []"
  by (simp add: take_idx_def)

lemma where0_all_equal: "where0 (map (\<lambda>(x, y). x \<noteq> y) (zip a a)) = []"
  unfolding where0_def by (auto simp: filter_empty_conv)

text \<open>
  C1. For label and prediction vectors of equal length (and an image batch that covers
  them) both finders return the indices \<open>i\<close> with \<open>labels[i] \<noteq> predictions[i]\<close>, in
  ascending order and each once, together with the predictions and the labels at these
  indices. On labels \<open>[0,1,2,1]\<close> and predictions \<open>[0,2,2,1]\<close> the result is the index
  list \<open>[1]\<close>, wrong labels \<open>[2]\<close> and correct labels \<open>[1]\<close>.
\<close>

theorem mismatch_finders_correct:
  fixes images :: "'img list" and a b c d :: 'img
  assumes "length labels = length predictions"
    and "length labels \<le> length images"
  shows "(\<exists>idx.
      find_wrong_predictions_cifar labels predictions =
        Inr (idx, map (\<lambda>i. predictions ! i) idx, map (\<lambda>i. labels ! i) idx)
    \<and> find_wrong_predictions labels predictions images =
        Inr (idx, map (\<lambda>i. images ! i) idx,
             map (\<lambda>i. predictions ! i) idx, map (\<lambda>i. labels ! i) idx)
    \<and> set idx = {i. i < length labels \<and> labels ! i \<noteq> predictions ! i}
    \<and> sorted_wrt (<) idx)
    \<and> find_wrong_predictions_cifar [0, 1, 2, 1] [0, 2, 2, 1] = Inr ([1], [2], [1])
    \<and> find_wrong_predictions [0, 1, 2, 1] [0, 2, 2, 1] [a, b, c, d]
        = Inr ([1], [b], [2], [1])"
proof -
  define idx where "idx = filter (\<lambda>i. labels ! i \<noteq> predictions ! i) [0..<length labels]"
  have cmp: "not_equal labels predictions =
      Inr (map (\<lambda>(x, y). x \<noteq> y) (zip labels predictions))"
    using assms(1) by (simp add: not_equal_def)
  have w: "where0 (map (\<lambda>(x, y). x \<noteq> y) (zip labels predictions)) = idx"
    using assms(1) by (simp add: where0_not_equal idx_def)
  have in_l: "\<forall>i \<in> set idx. i < length labels"
    by (simp add: idx_def)
  have in_p: "\<forall>i \<in> set idx. i < length predictions"
    using in_l assms(1) by simp
  have in_i: "\<forall>i \<in> set idx. i < length images"
    using in_l assms(2) by auto
  have cifar: "find_wrong_predictions_cifar labels predictions =
      Inr (idx, map (\<lambda>i. predictions ! i) idx, map (\<lambda>i. labels ! i) idx)"
    by (simp add: find_wrong_predictions_cifar_def cmp w
        take_idx_in_range [OF in_l] take_idx_in_range [OF in_p])
  have full: "find_wrong_predictions labels predictions images =
      Inr (idx, map (\<lambda>i. images ! i) idx,
           map (\<lambda>i. predictions ! i) idx, map (\<lambda>i. labels ! i) idx)"
    by (simp add: find_wrong_predictions_def cmp w take_idx_in_range [OF in_l]
        take_idx_in_range [OF in_p] take_idx_in_range [OF in_i])
  have members: "set idx = {i. i < length labels \<and> labels ! i \<noteq> predictions ! i}"
    by (auto simp: idx_def)
  have ascending: "sorted_wrt (<) idx"
    unfolding idx_def by (rule sorted_wrt_filter) simp
  have ex1: "find_wrong_predictions_cifar [0, 1, 2, 1] [0, 2, 2, 1] = Inr ([1], [2], [1])"
    by (simp add: find_wrong_predictions_cifar_def not_equal_def where0_def take_idx_def
        upt_conv_Cons)
  have ex2: "find_wrong_predictions [0, 1, 2, 1] [0, 2, 2, 1] [a, b, c, d]
      = Inr ([1], [b], [2], [1])"
    by (simp add: find_wrong_predictions_def not_equal_def where0_def take_idx_def
        upt_conv_Cons)
  from cifar full members ascending ex1 ex2 show ?thesis
    by blast
qed

theorem mismatch_finders_correct_witness:
  "length [0, 1, 2, 1 :: int] = length [0, 2, 2, 1 :: int]
   \<and> length [0, 1, 2, 1 :: int] \<le> length [10, 11, 12, 13 :: nat]
   \<and> find_wrong_predictions_cifar [0, 1, 2, 1] [0, 2, 2, 1] = Inr ([1], [2], [1])
   \<and> find_wrong_predictions [0, 1, 2, 1] [0, 2, 2, 1] [10, 11, 12, 13 :: nat]
        = Inr ([1], [11], [2], [1])"
  using mismatch_finders_correct [of "[0, 1, 2, 1]" "[0, 2, 2, 1]" "[10, 11, 12, 13 :: nat]"
      10 11 12 13]
  by simp

text \<open>
  C5. When the prediction vector is element-wise identical to the label vector, every
  output of both finders is empty and no error is raised, whatever the image batch is.
\<close>

theorem mismatch_finders_identical:
  "find_wrong_predictions_cifar labels labels = Inr ([], [], [])
   \<and> find_wrong_predictions labels labels images = Inr ([], [], [], [])"
  by (simp add: find_wrong_predictions_cifar_def find_wrong_predictions_def not_equal_def
      where0_all_equal)

theorem mismatch_finders_identical_witness:
  "find_wrong_predictions_cifar [3, 1, 4] [3, 1, 4] = Inr ([], [], [])
   \<and> find_wrong_predictions [3, 1, 4] [3, 1, 4] [True, False, True] = Inr ([], [], [], [])"
  using mismatch_finders_identical [of "[3, 1, 4]" "[True, False, True]"]
  by simp

text \<open>
  C6. For labels, predictions and images of one common length, the image slice returned
  by \<open>find_wrong_predictions\<close> is as long as the returned index list, and its entry at
  each position is the image stored at the index returned at that position.
\<close>

theorem wrong_images_aligned:
  assumes "length labels = length predictions"
    and "length images = length labels"
  shows "\<exists>idx imgs wl cl.
      find_wrong_predictions labels predictions images = Inr (idx, imgs, wl, cl)
    \<and> length imgs = length idx
    \<and> (\<forall>k < length idx. idx ! k < length images \<and> imgs ! k = images ! (idx ! k))"
proof -
  define idx where "idx = filter (\<lambda>i. labels ! i \<noteq> predictions ! i) [0..<length labels]"
  have cmp: "not_equal labels predictions =
      Inr (map (\<lambda>(x, y). x \<noteq> y) (zip labels predictions))"
    using assms(1) by (simp add: not_equal_def)
  have w: "where0 (map (\<lambda>(x, y). x \<noteq> y) (zip labels predictions)) = idx"
    using assms(1) by (simp add: where0_not_equal idx_def)
  have in_l: "\<forall>i \<in> set idx. i < length labels"
    by (simp add: idx_def)
  have in_p: "\<forall>i \<in> set idx. i < length predictions"
    using in_l assms(1) by simp
  have in_i: "\<forall>i \<in> set idx. i < length images"
    using in_l assms(2) by simp
  have full: "find_wrong_predictions labels predictions images =
      Inr (idx, map (\<lambda>i. images ! i) idx,
           map (\<lambda>i. predictions ! i) idx, map (\<lambda>i. labels ! i) idx)"
    by (simp add: find_wrong_predictions_def cmp w take_idx_in_range [OF in_l]
        take_idx_in_range [OF in_p] take_idx_in_range [OF in_i])
  have "\<forall>k < length idx. idx ! k < length images
      \<and> map (\<lambda>i. images ! i) idx ! k = images ! (idx ! k)"
    using in_i by simp
  with full show ?thesis
    by (intro exI [of _ idx] exI [of _ "map (\<lambda>i. images ! i) idx"]
        exI [of _ "map (\<lambda>i. predictions ! i) idx"] exI [of _ "map (\<lambda>i. labels ! i) idx"])
      simp
qed

theorem wrong_images_aligned_witness:
  "length [0, 1, 2, 1 :: int] = length [0, 2, 2, 0 :: int]
   \<and> length ''abcd'' = length [0, 1, 2, 1 :: int]
   \<and> (\<exists>idx imgs wl cl.
        find_wrong_predictions [0, 1, 2, 1] [0, 2, 2, 0] ''abcd'' = Inr (idx, imgs, wl, cl)
      \<and> length imgs = length idx
      \<and> (\<forall>k < length idx. idx ! k < length ''abcd'' \<and> imgs ! k = ''abcd'' ! (idx ! k)))"
  using wrong_images_aligned [of "[0, 1, 2, 1]" "[0, 2, 2, 0]" "''abcd''"]
  by simp

section \<open>Grid sizes\<close>

text \<open>
  The search returns the least \<open>k\<close> with \<open>n \<le> k * k\<close>, which is the ceiling of the
  real square root; the rounded-up quotient is the ceiling of the real quotient.
\<close>

lemma sqrt_search_spec:
  assumes "\<forall>j < k. j * j < n"
  shows "n \<le> sqrt_search n k * sqrt_search n k \<and> (\<forall>j < sqrt_search n k. j * j < n)"
  using assms
proof (induction n k rule: sqrt_search.induct)
  case (1 n k)
  show ?case
  proof (cases "n \<le> k * k")
    case True
    then have "sqrt_search n k = k" by (simp add: sqrt_search.simps)
    with True "1.prems" show ?thesis by simp
  next
    case False
    then have step: "sqrt_search n k = sqrt_search n (Suc k)"
      by (subst sqrt_search.simps) simp
    have "\<forall>j < Suc k. j * j < n"
      using "1.prems" False by (auto simp: less_Suc_eq)
    from "1.IH" [OF False this] show ?thesis by (simp add: step)
  qed
qed

lemma ceil_sqrt_spec:
  "n \<le> ceil_sqrt n * ceil_sqrt n \<and> (\<forall>j < ceil_sqrt n. j * j < n)"
  unfolding ceil_sqrt_def by (rule sqrt_search_spec) simp

lemma ceil_sqrt_unique:
  assumes "n \<le> r * r" and "\<forall>j < r. j * j < n"
  shows "ceil_sqrt n = r"
proof (rule ccontr)
  assume neq: "ceil_sqrt n \<noteq> r"
  let ?s = "ceil_sqrt n"
  from ceil_sqrt_spec [of n] have s1: "n \<le> ?s * ?s" and s2: "\<forall>j < ?s. j * j < n"
    by simp_all
  from neq consider "?s < r" | "r < ?s" by linarith
  then show False
  proof cases
    case 1
    with assms(2) have "?s * ?s < n" by simp
    with s1 show False by simp
  next
    case 2
    with s2 have "r * r < n" by simp
    with assms(1) show False by simp
  qed
qed

lemma ceil_sqrt_real: "int (ceil_sqrt n) = \<lceil>sqrt (real n)\<rceil>"
proof -
  let ?r = "ceil_sqrt n"
  from ceil_sqrt_spec [of n] have up: "n \<le> ?r * ?r" and low: "\<forall>j < ?r. j * j < n"
    by simp_all
  have "real n \<le> real (?r * ?r)" using up by (simp only: of_nat_le_iff)
  then have "sqrt (real n) \<le> sqrt (real ?r * real ?r)"
    by (simp only: real_sqrt_le_iff of_nat_mult)
  then have le: "sqrt (real n) \<le> real ?r" by simp
  have gt: "real ?r - 1 < sqrt (real n)"
  proof (cases "?r")
    case 0
    have "(0::real) \<le> sqrt (real n)" by simp
    then have "- 1 < sqrt (real n)" by linarith
    with 0 show ?thesis by simp
  next
    case (Suc q)
    with low have "q * q < n" by simp
    then have "real (q * q) < real n" by (simp only: of_nat_less_iff)
    then have "sqrt (real q * real q) < sqrt (real n)"
      by (simp only: real_sqrt_less_iff of_nat_mult)
    then have "real q < sqrt (real n)" by simp
    with Suc show ?thesis by simp
  qed
  have "\<lceil>sqrt (real n)\<rceil> = int ?r"
    by (rule ceiling_unique) (use le gt in simp_all)
  then show ?thesis by simp
qed

lemma ceil_sqrt_pos: "0 < n \<Longrightarrow> 0 < ceil_sqrt n"
  using ceil_sqrt_spec [of n] by (cases "ceil_sqrt n") auto

lemma ceil_sqrt_zero [simp]: "ceil_sqrt 0 = 0"
  by (rule ceil_sqrt_unique) simp_all

lemma ceil_sqrt_le: "ceil_sqrt n \<le> n"
proof (cases "ceil_sqrt n")
  case 0
  then show ?thesis by simp
next
  case (Suc q)
  with ceil_sqrt_spec [of n] have "q * q < n" by simp
  moreover have "q \<le> q * q" by (cases q) simp_all
  ultimately show ?thesis using Suc by linarith
qed

lemma ceil_div_real:
  assumes "0 < d"
  shows "\<exists>q. ceil_div n d = Inr q \<and> int q = \<lceil>real n / real d\<rceil> \<and> n \<le> q * d"
proof -
  let ?q = "(n + d - 1) div d"
  have q: "ceil_div n d = Inr ?q" using assms by (simp add: ceil_div_def)
  have up: "n \<le> ?q * d"
  proof -
    have "n + d - 1 = ?q * d + (n + d - 1) mod d" by simp
    moreover have "(n + d - 1) mod d \<le> d - 1" using assms
      by (metis Suc_pred' less_Suc_eq_le mod_less_divisor)
    ultimately show ?thesis using assms by linarith
  qed
  have low: "(?q - 1) * d < n \<or> ?q = 0"
  proof (cases "?q")
    case 0
    then show ?thesis by simp
  next
    case (Suc p)
    have "?q * d \<le> n + d - 1" by simp
    then have "Suc p * d \<le> n + d - 1" by (simp only: Suc)
    then have "p * d + d \<le> n + d - 1" by simp
    then have "p * d < n" using assms by linarith
    then show ?thesis using Suc by simp
  qed
  have "\<lceil>real n / real d\<rceil> = int ?q"
  proof (rule ceiling_unique)
    show "real n / real d \<le> of_int (int ?q)"
    proof -
      have "real n \<le> real (?q * d)" using up by (simp only: of_nat_le_iff)
      then show ?thesis using assms by (simp add: field_simps)
    qed
    show "of_int (int ?q) - 1 < real n / real d"
    proof (cases "?q")
      case 0
      have "(0::real) \<le> real n / real d" by simp
      then have "- 1 < real n / real d" by linarith
      with 0 show ?thesis by simp
    next
      case (Suc p)
      with low have "p * d < n" by simp
      then have "real (p * d) < real n" by (simp only: of_nat_less_iff)
      then have "real p < real n / real d" using assms by (simp add: field_simps)
      with Suc show ?thesis by simp
    qed
  qed
  with q up show ?thesis by auto
qed

lemma image_grid_pos:
  assumes "0 < n"
  shows "\<exists>c. image_grid n = Inr (ceil_sqrt n, c)
    \<and> int c = \<lceil>real n / real (ceil_sqrt n)\<rceil> \<and> n \<le> ceil_sqrt n * c \<and> c \<le> ceil_sqrt n
    \<and> 0 < c"
proof -
  let ?r = "ceil_sqrt n"
  have r: "0 < ?r" using assms by (rule ceil_sqrt_pos)
  from ceil_div_real [OF r, of n] obtain c where c: "ceil_div n ?r = Inr c"
    and cr: "int c = \<lceil>real n / real ?r\<rceil>" and up: "n \<le> c * ?r"
    by blast
  have c_def: "c = (n + ?r - 1) div ?r" using c r by (simp add: ceil_div_def)
  have "n + ?r - 1 < ?r * ?r + ?r" using ceil_sqrt_spec [of n] r by linarith
  then have "(n + ?r - 1) div ?r < ?r + 1"
    by (metis add.commute div_mult_self1 less_mult_imp_div_less mult.commute
        mult_Suc_right Suc_eq_plus1 div_less_iff_less_mult r)
  then have cle: "c \<le> ?r" using c_def by simp
  have cpos: "0 < c" using up assms by (cases c) simp_all
  show ?thesis using c cr up cle cpos by (simp add: image_grid_def mult.commute)
qed

lemma image_grid_zero: "image_grid 0 = Inl ZeroDivisionError"
  by (simp add: image_grid_def ceil_div_def)

lemma image_grid_Inr:
  assumes "image_grid n = Inr (r, c)"
  shows "0 < n \<and> r = ceil_sqrt n \<and> int c = \<lceil>real n / real r\<rceil> \<and> n \<le> r * c"
proof -
  have pos: "0 < n"
  proof (rule ccontr)
    assume "\<not> 0 < n"
    then have "n = 0" by simp
    with assms show False by (simp add: image_grid_zero)
  qed
  from image_grid_pos [OF pos] assms pos show ?thesis by auto
qed

lemma ceil_sqrt_9: "ceil_sqrt 9 = 3"
  by (rule ceil_sqrt_unique) (auto simp: less_Suc_eq numeral_3_eq_3)

lemma ceil_sqrt_16: "ceil_sqrt 16 = 4"
  by (rule ceil_sqrt_unique) (auto simp: less_Suc_eq numeral_eq_Suc)

section \<open>Rows of an array and the image collection\<close>

lemma zip_upt_diag:
  assumes "n \<le> m"
  shows "zip [0..<m] [0..<n] = map (\<lambda>i. (i, i)) [0..<n]"
  using assms by (intro nth_equalityI) simp_all

lemma length_block:
  assumes "k * b + b \<le> length xs"
  shows "length (block xs b k) = b"
  using assms by (simp add: block_def)

lemma row_in_range:
  assumes "wf_array a" and "shape a = n # rest" and "i < n"
  shows "i * prod_list rest + prod_list rest \<le> length (elems a)"
proof -
  have "Suc i * prod_list rest \<le> n * prod_list rest"
    using assms(3) by (intro mult_le_mono1) simp
  then show ?thesis using assms(1,2) by (simp add: wf_array_def)
qed

lemma row_slice_ok:
  assumes "wf_array a" and "shape a = n # rest" and "rest \<noteq> []" and "i < n"
  shows "row_slice a i = Inr \<lparr>shape = rest, elems = block (elems a) (prod_list rest) i\<rparr>"
    and "length (block (elems a) (prod_list rest) i) = prod_list rest"
proof -
  have "\<not> length (shape a) < 2" using assms(2,3) by (cases rest) simp_all
  then show "row_slice a i = Inr \<lparr>shape = rest, elems = block (elems a) (prod_list rest) i\<rparr>"
    using assms(2,4) by (simp add: row_slice_def row_at_def del: length_0_conv)
  show "length (block (elems a) (prod_list rest) i) = prod_list rest"
    by (rule length_block) (rule row_in_range [OF assms(1,2,4)])
qed

lemma row_slice_out_of_range:
  assumes "shape a = n # rest" and "n \<le> i"
  shows "row_slice a i = Inl IndexError"
  using assms by (simp add: row_slice_def row_at_def)

lemma collection_panel_ok:
  assumes "wf_array images" and "shape images = n # rest" and "rest \<noteq> []"
    and "prod_list rest = 784" and "count < n"
  shows "collection_panel images count =
      Inr (set_yticks [] (set_xticks []
        (blank_axes\<lparr>ax_images :=
           [plain_image \<lparr>shape = [28, 28], elems = block (elems images) 784 count\<rparr>]\<rparr>)))"
proof -
  note row = row_slice_ok [OF assms(1,2,3,5)]
  show ?thesis
    using row(2) assms(4)
    by (simp add: collection_panel_def row(1) reshape_def imshow_def plain_image_def
        image_shape_ok_def blank_axes_def)
qed

lemma gridspec_ok:
  assumes "0 < r" and "0 < c"
  shows "gridspec r c = Inr ((new_figure r c)\<lparr>fig_hspace := Some 0, fig_wspace := Some 0,
                                  fig_margins := Some (1, 0, 1, 0)\<rparr>)"
  using assms by (simp add: gridspec_def)

lemma save_image_collection_ok:
  assumes "wf_array images" and "shape images = n # rest" and "0 < n" and "rest \<noteq> []"
    and "prod_list rest = 784"
  shows "\<exists>c. image_grid n = Inr (ceil_sqrt n, c) \<and>
    save_image_collection images filename =
      Inr \<lparr>fig_rows = ceil_sqrt n, fig_cols = c, fig_hspace = Some 0, fig_wspace = Some 0,
           fig_margins = Some (1, 0, 1, 0), fig_cells = [0..<n],
           fig_axes = map (\<lambda>k. set_yticks [] (set_xticks []
              (blank_axes\<lparr>ax_images :=
                 [plain_image \<lparr>shape = [28, 28], elems = block (elems images) 784 k\<rparr>]\<rparr>)))
              [0..<n],
           fig_tight = False, fig_colorbar = False, fig_shown = False,
           fig_saved = [filename @ ''_vis.png'']\<rparr>"
proof -
  let ?r = "ceil_sqrt n"
  let ?ax = "\<lambda>k. set_yticks [] (set_xticks []
              (blank_axes\<lparr>ax_images :=
                 [plain_image \<lparr>shape = [28, 28], elems = block (elems images) 784 k\<rparr>]\<rparr>))"
  from image_grid_pos [OF assms(3)] obtain c where grid: "image_grid n = Inr (?r, c)"
    and cover: "n \<le> ?r * c" and cpos: "0 < c"
    by blast
  have rpos: "0 < ?r" using assms(3) by (rule ceil_sqrt_pos)
  have dims: "shape_at images 0 = Inr n" using assms(2) by (simp add: shape_at_def)
  have pairs: "zip [0..<?r * c] [0..<n] = map (\<lambda>i. (i, i)) [0..<n]"
    using cover by (rule zip_upt_diag)
  have body: "\<forall>(cell, count) \<in> set (map (\<lambda>i. (i, i)) [0..<n]).
      collection_panel images count = Inr (?ax count)"
    using collection_panel_ok [OF assms(1,2,4,5)] by auto
  have loop: "for_cells (collection_panel images) (map (\<lambda>i. (i, i)) [0..<n]) []
      = Inr (map (\<lambda>k. (k, ?ax k)) [0..<n])"
    unfolding for_cells_Inr using body by auto
  show ?thesis
    by (rule exI [of _ c])
      (simp add: save_image_collection_def dims grid gridspec_ok [OF rpos cpos] grid_cells_def
        pairs loop savefig_def new_figure_def comp_def)
qed

lemma save_image_collection_Inr:
  assumes "save_image_collection images filename = Inr fig"
  shows "\<exists>n. shape_at images 0 = Inr n \<and> 0 < n
    \<and> image_grid n = Inr (fig_rows fig, fig_cols fig)
    \<and> fig_cells fig = [0..<n] \<and> length (fig_axes fig) = n
    \<and> fig_saved fig = [filename @ ''_vis.png'']"
proof -
  from assms obtain n r c grid drawn where dims: "shape_at images 0 = Inr n"
    and grid: "image_grid n = Inr (r, c)"
    and spec: "gridspec r c = Inr (grid :: 'a figure)"
    and loop: "for_cells (collection_panel images) (zip (grid_cells grid) [0..<n]) [] = Inr drawn"
    and fig: "fig = savefig (filename @ ''_vis.png'')
        (grid\<lparr>fig_cells := map fst drawn, fig_axes := map snd drawn\<rparr>)"
    by (auto simp: save_image_collection_def bindE_eq_Inr)
  from image_grid_Inr [OF grid] have pos: "0 < n" and cover: "n \<le> r * c" by blast+
  from spec have g: "grid = (new_figure r c)\<lparr>fig_hspace := Some 0, fig_wspace := Some 0,
      fig_margins := Some (1, 0, 1, 0)\<rparr>"
    by (auto simp: gridspec_def split: if_splits)
  have pairs: "zip (grid_cells grid) [0..<n] = map (\<lambda>i. (i, i)) [0..<n]"
    using cover by (simp add: grid_cells_def g new_figure_def zip_upt_diag)
  from loop have drawn: "drawn = map (\<lambda>(c, n). (c, projr (collection_panel images n)))
      (map (\<lambda>i. (i, i)) [0..<n])"
    unfolding pairs for_cells_Inr by simp
  have cells: "map fst drawn = [0..<n]"
    unfolding drawn by (simp add: comp_def)
  have len: "length (map snd drawn) = n"
    unfolding drawn by simp
  show ?thesis
    using dims pos grid cells len
    by (intro exI [of _ n]) (simp add: fig savefig_def g new_figure_def)
qed

section \<open>Panel grids and the loops over them\<close>

lemma concat_grid_ids:
  "concat (map (\<lambda>i. map (\<lambda>j. i * c + j) [0..<c]) [0..<r]) = [0..<r * c]"
proof (induction r)
  case 0
  then show ?case by simp
next
  case (Suc r)
  have row: "map (\<lambda>j. r * c + j) [0..<c] = [r * c..<r * c + c]"
    by (rule nth_equalityI) simp_all
  have split: "[0..<r * c + c] = [0..<r * c] @ [r * c..<r * c + c]"
    by (rule upt_add_eq_append) simp
  have "concat (map (\<lambda>i. map (\<lambda>j. i * c + j) [0..<c]) [0..<Suc r])
      = concat (map (\<lambda>i. map (\<lambda>j. i * c + j) [0..<c]) [0..<r]) @ map (\<lambda>j. r * c + j) [0..<c]"
    by simp
  also have "\<dots> = [0..<r * c] @ [r * c..<r * c + c]"
    by (simp only: Suc.IH row)
  also have "\<dots> = [0..<r * c + c]"
    by (simp only: split)
  also have "r * c + c = Suc r * c"
    by simp
  finally show ?case .
qed

lemma enumerate_upt: "enumerate 0 [0..<m] = map (\<lambda>i. (i, i)) [0..<m]"
  by (intro nth_equalityI) (simp_all add: nth_enumerate_eq)

lemma subplots_flat:
  assumes "subplots r c = Inr (fig, axes)" and "flat axes = Inr panels"
  shows "panels = [0..<r * c] \<and> 0 < r \<and> 0 < c \<and> \<not> (r = 1 \<and> c = 1)
    \<and> fig = (new_figure r c)\<lparr>fig_cells := [0..<r * c],
                                fig_axes := replicate (r * c) blank_axes\<rparr>"
  using assms
  by (auto simp: subplots_def flat_def concat_grid_ids split: if_splits)

lemma subplots_grid:
  assumes "0 < r" and "0 < c" and "\<not> (r = 1 \<and> c = 1)"
  shows "\<exists>axes. subplots r c =
        Inr ((new_figure r c)\<lparr>fig_cells := [0..<r * c],
                                fig_axes := replicate (r * c) blank_axes\<rparr>, axes)
      \<and> flat axes = Inr [0..<r * c]"
  using assms by (auto simp: subplots_def flat_def concat_grid_ids)

lemma flat_loop_Inr:
  assumes "for_axes body (enumerate 0 [0..<m]) (replicate m blank_axes) = Inr axs"
  shows "length axs = m \<and> (\<forall>i < m. body i blank_axes = Inr (axs ! i))"
proof -
  have d: "distinct (map snd (map (\<lambda>i. (i, i)) [0..<m]))"
    by (simp add: comp_def)
  from for_axes_Inr [OF assms [unfolded enumerate_upt] d]
  show ?thesis by auto
qed

lemma flat_loop_success:
  assumes "\<forall>i < m. \<not> isl (body i blank_axes)"
  shows "\<exists>axs. for_axes body (enumerate 0 [0..<m]) (replicate m blank_axes) = Inr axs"
proof -
  have d: "distinct (map snd (map (\<lambda>i. (i, i)) [0..<m]))"
    by (simp add: comp_def)
  have "\<not> isl (for_axes body (map (\<lambda>i. (i, i)) [0..<m]) (replicate m blank_axes))"
    using assms by (intro for_axes_success [OF d]) auto
  then show ?thesis
    unfolding enumerate_upt
    by (cases "for_axes body (map (\<lambda>i. (i, i)) [0..<m]) (replicate m blank_axes)") auto
qed

lemma np_min_ok: "elems a \<noteq> [] \<Longrightarrow> \<exists>v. np_min a = Inr v"
  by (cases "elems a") (simp_all add: np_min_def)

lemma np_max_ok: "elems a \<noteq> [] \<Longrightarrow> \<exists>v. np_max a = Inr v"
  by (cases "elems a") (simp_all add: np_max_def)

lemma conv_weights_panel_Inr:
  assumes "conv_weights_panel weights c f lo hi i blank_axes = Inr ax"
  shows "(i < f \<longrightarrow> (\<exists>im. ax_images ax = [im] \<and> filter_slice weights c i = Inr (img_data im)
            \<and> img_vmin im = Some lo \<and> img_vmax im = Some hi))
    \<and> (f \<le> i \<longrightarrow> ax_images ax = [])
    \<and> ax_xticks ax = Some [] \<and> ax_yticks ax = Some []"
  using assms
  by (auto simp: conv_weights_panel_def bindE_eq_Inr imshow_def set_xticks_def set_yticks_def
      blank_axes_def split: if_splits)

lemma plot_conv_weights_Inr:
  assumes "plot_conv_weights weights input_channel = Inr fig"
  shows "\<exists>f lo hi. shape_at weights 3 = Inr f \<and> np_min weights = Inr lo \<and> np_max weights = Inr hi
    \<and> fig_rows fig = ceil_sqrt f \<and> fig_cols fig = ceil_sqrt f
    \<and> length (fig_axes fig) = ceil_sqrt f * ceil_sqrt f
    \<and> (\<forall>i < ceil_sqrt f * ceil_sqrt f.
          conv_weights_panel weights (case input_channel of None \<Rightarrow> 0 | Some c \<Rightarrow> c) f lo hi i
            blank_axes = Inr (fig_axes fig ! i))"
proof -
  let ?c = "case input_channel of None \<Rightarrow> 0 | Some c \<Rightarrow> c"
  from assms obtain lo hi f fig0 axes panels axs
    where lo: "np_min weights = Inr lo" and hi: "np_max weights = Inr hi"
      and f: "shape_at weights 3 = Inr f"
      and sub: "subplots (ceil_sqrt f) (ceil_sqrt f) = Inr (fig0 :: 'a figure, axes)"
      and fl: "flat axes = Inr panels"
      and loop: "for_axes (conv_weights_panel weights ?c f lo hi) (enumerate 0 panels)
                   (fig_axes fig0) = Inr axs"
      and fig: "fig = plt_show (fig0\<lparr>fig_axes := axs\<rparr>)"
    by (auto simp: plot_conv_weights_def bindE_eq_Inr Let_def)
  let ?g = "ceil_sqrt f"
  from subplots_flat [OF sub fl] have panels: "panels = [0..<?g * ?g]"
    and fig0: "fig0 = (new_figure ?g ?g)\<lparr>fig_cells := [0..<?g * ?g],
                                fig_axes := replicate (?g * ?g) blank_axes\<rparr>"
    by simp_all
  have "for_axes (conv_weights_panel weights ?c f lo hi) (enumerate 0 [0..<?g * ?g])
          (replicate (?g * ?g) blank_axes) = Inr axs"
    using loop by (simp add: panels fig0)
  from flat_loop_Inr [OF this] have "length axs = ?g * ?g"
    and "\<forall>i < ?g * ?g. conv_weights_panel weights ?c f lo hi i blank_axes = Inr (axs ! i)"
    by simp_all
  then show ?thesis
    using lo hi f by (simp add: fig fig0 plt_show_def new_figure_def)
qed

lemma filter_slice_ok:
  assumes "shape a = h # w # ci # f # rest" and "0 \<le> c" and "c < int ci" and "i < f"
  shows "\<exists>es. filter_slice a c i = Inr \<lparr>shape = h # w # rest, elems = es\<rparr>"
  using assms by (simp add: filter_slice_def py_index_def)

lemma conv_weights_panel_ok:
  assumes "shape weights = [h, w, ci, f]" and "0 \<le> c" and "c < int ci"
  shows "\<not> isl (conv_weights_panel weights c f lo hi i blank_axes)"
proof (cases "i < f")
  case True
  from filter_slice_ok [OF assms(1,2,3) True] obtain es
    where "filter_slice weights c i = Inr \<lparr>shape = [h, w], elems = es\<rparr>" by auto
  then show ?thesis
    using True by (simp add: conv_weights_panel_def imshow_def image_shape_ok_def)
next
  case False
  then show ?thesis by (simp add: conv_weights_panel_def)
qed

lemma plot_conv_weights_ok:
  assumes "shape weights = [h, w, ci, f]" and "elems weights \<noteq> []" and "0 < ci" and "2 \<le> f"
  shows "\<exists>fig. plot_conv_weights weights None = Inr fig"
proof -
  from np_min_ok [OF assms(2)] obtain lo where lo: "np_min weights = Inr lo" by blast
  from np_max_ok [OF assms(2)] obtain hi where hi: "np_max weights = Inr hi" by blast
  have f: "shape_at weights 3 = Inr f" using assms(1) by (simp add: shape_at_def)
  let ?g = "ceil_sqrt f"
  have "ceil_sqrt f \<noteq> 1"
  proof
    assume "ceil_sqrt f = 1"
    with ceil_sqrt_spec [of f] have "f \<le> 1" by simp
    with assms(4) show False by simp
  qed
  moreover have "0 < ?g" using assms(4) by (intro ceil_sqrt_pos) simp
  ultimately obtain axes where sub: "subplots ?g ?g =
        Inr ((new_figure ?g ?g)\<lparr>fig_cells := [0..<?g * ?g],
                                fig_axes := replicate (?g * ?g) blank_axes\<rparr> :: 'a figure, axes)"
      and fl: "flat axes = Inr [0..<?g * ?g]"
    using subplots_grid [of ?g ?g] by blast
  have "\<forall>i < ?g * ?g. \<not> isl (conv_weights_panel weights 0 f lo hi i blank_axes)"
    using conv_weights_panel_ok [OF assms(1), of 0] assms(3) by simp
  from flat_loop_success [where body = "conv_weights_panel weights 0 f lo hi"
      and m = "?g * ?g", OF this] obtain axs
    where "for_axes (conv_weights_panel weights 0 f lo hi) (enumerate 0 [0..<?g * ?g])
             (replicate (?g * ?g) blank_axes) = Inr axs" by blast
  then show ?thesis
    by (simp add: plot_conv_weights_def lo hi f sub fl Let_def)
qed

section \<open>Columns of a weight matrix and the dense-weight panels\<close>

lemma length_concat_blocks:
  assumes "\<forall>x \<in> set xs. length (f x) = b"
  shows "length (concat (map f xs)) = length xs * b"
  using assms by (induction xs) simp_all

lemma col_slice_ok:
  assumes "wf_array a" and "shape a = [m, n]" and "i < n"
  shows "\<exists>es. col_slice a i = Inr \<lparr>shape = [m], elems = es\<rparr> \<and> length es = m"
proof -
  let ?es = "concat (map (\<lambda>r. block (elems a) 1 (r * n + i)) [0..<m])"
  have len: "length (elems a) = m * n" using assms(1,2) by (simp add: wf_array_def)
  have "\<forall>r \<in> set [0..<m]. length (block (elems a) 1 (r * n + i)) = 1"
  proof
    fix r assume "r \<in> set [0..<m]"
    then have "r < m" by simp
    then have "Suc r * n \<le> m * n" by (intro mult_le_mono1) simp
    then have "(r * n + i) * 1 + 1 \<le> length (elems a)" using assms(3) len by simp
    then show "length (block (elems a) 1 (r * n + i)) = 1" by (rule length_block)
  qed
  then have "length ?es = length [0..<m] * 1" by (rule length_concat_blocks)
  then have "length ?es = m" by simp
  moreover have "col_slice a i = Inr \<lparr>shape = [m], elems = ?es\<rparr>"
    using assms(2,3) by (simp add: col_slice_def)
  ultimately show ?thesis by blast
qed

lemma col_slice_out_of_range:
  assumes "shape a = [m, n]" and "n \<le> i"
  shows "col_slice a i = Inl IndexError"
  using assms by (simp add: col_slice_def)

lemma weights_panel_Inr:
  assumes "weights_panel weights img_shape lo hi i blank_axes = Inr ax"
  shows "(i < 10 \<longrightarrow> ax_xlabels ax = [''Weights: '' @ str_nat i]
            \<and> (\<exists>im. ax_images ax = [im] \<and> shape (img_data im) = img_shape
                  \<and> img_vmin im = Some lo \<and> img_vmax im = Some hi))
    \<and> (10 \<le> i \<longrightarrow> ax_xlabels ax = [] \<and> ax_images ax = [])
    \<and> ax_xticks ax = Some [] \<and> ax_yticks ax = Some []"
  using assms
  by (auto simp: weights_panel_def bindE_eq_Inr imshow_def set_xticks_def set_yticks_def
      set_xlabel_def reshape_def blank_axes_def split: if_splits)

lemma weights_panel_ok:
  assumes "wf_array weights" and "shape weights = [m, n]" and "10 \<le> n"
    and "prod_list img_shape = m" and "image_shape_ok img_shape"
  shows "\<not> isl (weights_panel weights img_shape lo hi i blank_axes)"
proof (cases "i < 10")
  case True
  then have "i < n" using assms(3) by simp
  from col_slice_ok [OF assms(1,2) this] obtain es
    where "col_slice weights i = Inr \<lparr>shape = [m], elems = es\<rparr>" and "length es = m"
    by blast
  then show ?thesis
    using True assms(4,5) by (simp add: weights_panel_def reshape_def imshow_def)
next
  case False
  then show ?thesis by (simp add: weights_panel_def)
qed

lemma plot_weights_Inr:
  assumes "plot_weights weights img_shape = Inr fig"
  shows "\<exists>lo hi. np_min weights = Inr lo \<and> np_max weights = Inr hi
    \<and> fig_rows fig = 3 \<and> fig_cols fig = 4 \<and> length (fig_axes fig) = 12
    \<and> fig_hspace fig = Some (3 / 10) \<and> fig_wspace fig = Some (3 / 10)
    \<and> (\<forall>i < 12. weights_panel weights img_shape lo hi i blank_axes = Inr (fig_axes fig ! i))"
proof -
  from assms obtain lo hi fig0 axes panels axs
    where lo: "np_min weights = Inr lo" and hi: "np_max weights = Inr hi"
      and sub: "subplots 3 4 = Inr (fig0 :: 'a figure, axes)"
      and fl: "flat axes = Inr panels"
      and loop: "for_axes (weights_panel weights img_shape lo hi) (enumerate 0 panels)
                   (fig_axes (subplots_adjust (3 / 10) (3 / 10) fig0)) = Inr axs"
      and fig: "fig = plt_show ((subplots_adjust (3 / 10) (3 / 10) fig0)\<lparr>fig_axes := axs\<rparr>)"
    by (auto simp: plot_weights_def bindE_eq_Inr Let_def)
  from subplots_flat [OF sub fl] have panels: "panels = [0..<3 * 4]"
    and fig0: "fig0 = (new_figure 3 4)\<lparr>fig_cells := [0..<3 * 4],
                                fig_axes := replicate (3 * 4) blank_axes\<rparr>"
    by simp_all
  have "for_axes (weights_panel weights img_shape lo hi) (enumerate 0 [0..<12])
          (replicate 12 blank_axes) = Inr axs"
    using loop by (simp add: panels fig0 subplots_adjust_def)
  from flat_loop_Inr [OF this] have "length axs = 12"
    and "\<forall>i < 12. weights_panel weights img_shape lo hi i blank_axes = Inr (axs ! i)"
    by simp_all
  then show ?thesis
    using lo hi by (simp add: fig fig0 plt_show_def new_figure_def subplots_adjust_def)
qed

lemma plot_weights_ok:
  assumes "wf_array weights" and "shape weights = [m, n]" and "0 < m" and "10 \<le> n"
    and "prod_list img_shape = m" and "image_shape_ok img_shape"
  shows "\<exists>fig. plot_weights weights img_shape = Inr fig"
proof -
  have "length (elems weights) = m * n" using assms(1,2) by (simp add: wf_array_def)
  then have ne: "elems weights \<noteq> []" using assms(3,4) by auto
  from np_min_ok [OF ne] obtain lo where lo: "np_min weights = Inr lo" by blast
  from np_max_ok [OF ne] obtain hi where hi: "np_max weights = Inr hi" by blast
  obtain axes where sub: "subplots 3 4 =
        Inr ((new_figure 3 4)\<lparr>fig_cells := [0..<3 * 4],
                                fig_axes := replicate (3 * 4) blank_axes\<rparr> :: 'a figure, axes)"
      and fl: "flat axes = Inr [0..<3 * 4]"
    using subplots_grid [of 3 4] by auto
  have "\<forall>i < 12. \<not> isl (weights_panel weights img_shape lo hi i blank_axes)"
    using weights_panel_ok [OF assms(1,2,4,5,6)] by simp
  from flat_loop_success [where body = "weights_panel weights img_shape lo hi" and m = 12,
      OF this]
  obtain axs where "for_axes (weights_panel weights img_shape lo hi) (enumerate 0 [0..<12])
             (replicate 12 blank_axes) = Inr axs" by blast
  then show ?thesis
    by (simp add: plot_weights_def lo hi sub fl Let_def subplots_adjust_def)
qed

lemma plot_weights_too_few_units:
  assumes "wf_array weights" and "shape weights = [m, n]" and "0 < m" and "n < 10"
  shows "isl (plot_weights weights img_shape)"
proof (rule ccontr)
  assume "\<not> isl (plot_weights weights img_shape)"
  then obtain fig where "plot_weights weights img_shape = Inr fig"
    by (cases "plot_weights weights img_shape") auto
  from plot_weights_Inr [OF this] obtain lo hi
    where "\<forall>i < 12. weights_panel weights img_shape lo hi i blank_axes = Inr (fig_axes fig ! i)"
    by blast
  then have "weights_panel weights img_shape lo hi n blank_axes = Inr (fig_axes fig ! n)"
    using assms(4) by simp
  moreover have "col_slice weights n = Inl IndexError"
    using assms(2) by (simp add: col_slice_out_of_range)
  ultimately show False
    using assms(4) by (simp add: weights_panel_def)
qed

lemma weight_captions:
  "map (\<lambda>i. ''Weights: '' @ str_nat i) [0..<10] =
     [''Weights: 0'', ''Weights: 1'', ''Weights: 2'', ''Weights: 3'', ''Weights: 4'',
      ''Weights: 5'', ''Weights: 6'', ''Weights: 7'', ''Weights: 8'', ''Weights: 9'']"
  by (simp add: upt_conv_Cons str_nat.simps)

section \<open>Columns of panels and the bar charts\<close>

lemma enumerate_map_upt: "enumerate 0 (map f [0..<n]) = map (\<lambda>i. (i, f i)) [0..<n]"
  by (intro nth_equalityI) (simp_all add: nth_enumerate_eq)

lemma subplots_column:
  assumes "subplots n 3 = Inr (fig, axes)" and "column axes j = Inr col" and "j < 3"
  shows "2 \<le> n \<and> col = map (\<lambda>i. i * 3 + j) [0..<n]
    \<and> fig = (new_figure n 3)\<lparr>fig_cells := [0..<n * 3],
                                fig_axes := replicate (n * 3) blank_axes\<rparr>"
proof -
  from assms(1) have pos: "n \<noteq> 0" by (auto simp: subplots_def split: if_splits)
  have not1: "n \<noteq> 1"
  proof
    assume "n = 1"
    with assms(1) have "axes = Ax1D [0..<1 * 3]" by (simp add: subplots_def)
    with assms(2) show False by (simp add: column_def)
  qed
  from pos not1 assms(1) have axes: "axes = Ax2D (map (\<lambda>i. map (\<lambda>j. i * 3 + j) [0..<3]) [0..<n])"
    and fig: "fig = (new_figure n 3)\<lparr>fig_cells := [0..<n * 3],
                                fig_axes := replicate (n * 3) blank_axes\<rparr>"
    by (auto simp: subplots_def split: if_splits)
  have "col = map (\<lambda>r. r ! j) (map (\<lambda>i. map (\<lambda>j. i * 3 + j) [0..<3]) [0..<n])"
    using assms(2) by (simp add: axes column_def split: if_splits)
  also have "\<dots> = map (\<lambda>i. i * 3 + j) [0..<n]"
    using assms(3) by (simp add: comp_def del: upt_Suc)
  finally show ?thesis using pos not1 fig by simp
qed

lemma column_ids_distinct: "distinct (map (\<lambda>i. i * 3 + j) [0..<n :: nat])"
  by (simp add: distinct_map inj_on_def)

lemma column_loop_Inr:
  assumes "for_axes body (enumerate 0 (map (\<lambda>i. i * 3 + j) [0..<n])) st = Inr st'"
    and "length st = n * 3" and "j < 3"
  shows "length st' = n * 3
    \<and> (\<forall>i < n. body i (st ! (i * 3 + j)) = Inr (st' ! (i * 3 + j)))
    \<and> (\<forall>a. (\<forall>i < n. a \<noteq> i * 3 + j) \<longrightarrow> st' ! a = st ! a)"
proof -
  let ?ps = "map (\<lambda>i. (i, i * 3 + j)) [0..<n]"
  have d: "distinct (map snd ?ps)"
    using column_ids_distinct [of j n] by (simp add: comp_def)
  from for_axes_Inr [OF assms(1) [unfolded enumerate_map_upt] d]
  have len: "length st' = length st"
    and visited: "\<forall>(i, a) \<in> set ?ps. a < length st \<longrightarrow> body i (st ! a) = Inr (st' ! a)"
    and others: "\<forall>a. a \<notin> snd ` set ?ps \<longrightarrow> st' ! a = st ! a"
    by blast+
  have "\<forall>i < n. body i (st ! (i * 3 + j)) = Inr (st' ! (i * 3 + j))"
  proof (intro allI impI)
    fix i assume i: "i < n"
    then have "(i, i * 3 + j) \<in> set ?ps" by simp
    moreover have "i * 3 + j < length st" using i assms(2,3) by simp
    ultimately show "body i (st ! (i * 3 + j)) = Inr (st' ! (i * 3 + j))"
      using visited by blast
  qed
  moreover have "\<forall>a. (\<forall>i < n. a \<noteq> i * 3 + j) \<longrightarrow> st' ! a = st ! a"
  proof (intro allI impI)
    fix a assume "\<forall>i < n. a \<noteq> i * 3 + j"
    then have "a \<notin> snd ` set ?ps" by auto
    with others show "st' ! a = st ! a" by simp
  qed
  ultimately show ?thesis using len assms(2) by simp
qed

lemma bar_Inr:
  assumes "bar (arange 10) height bar_colors ax = Inr ax'"
  shows "(length height = 10 \<or> length height = 1)
    \<and> (\<exists>b. ax_bars ax' = ax_bars ax @ [b] \<and> bar_x b = [0, 1, 2, 3, 4, 5, 6, 7, 8, 9]
          \<and> length (bar_height b) = 10 \<and> bar_color b = bar_colors)"
proof -
  have x: "arange 10 = [0, 1, 2, 3, 4, 5, 6, 7, 8, 9]"
    by (simp add: arange_def upt_conv_Cons)
  from assms show ?thesis
    unfolding x by (auto simp: bar_def split: if_splits)
qed

lemma bar_shape_mismatch:
  assumes "length height \<noteq> 10" and "length height \<noteq> 1"
  shows "bar (arange 10) height bar_colors ax = Inl ValueError"
  using assms by (simp add: bar_def arange_def)

lemma bar_panel_Inr:
  assumes "bar_panel scores i blank_axes = Inr ax"
  shows "i < length scores \<and> (length (scores ! i) = 10 \<or> length (scores ! i) = 1)
    \<and> (\<exists>b. ax_bars ax = [b] \<and> bar_x b = [0, 1, 2, 3, 4, 5, 6, 7, 8, 9]
          \<and> length (bar_height b) = 10 \<and> bar_color b = bar_colors)"
proof -
  from assms obtain h ax' where h: "list_get scores i = Inr h"
    and b: "bar (arange 10) h bar_colors blank_axes = Inr ax'"
    and ax: "ax = set_yticks [] (set_xticks (arange 10) ax')"
    by (auto simp: bar_panel_def bindE_eq_Inr)
  from h have i: "i < length scores" and hi: "h = scores ! i"
    by (auto simp: list_get_def split: if_splits)
  from bar_Inr [OF b] show ?thesis
    using i hi by (auto simp: ax set_xticks_def set_yticks_def blank_axes_def)
qed

lemma plot_images_Inr:
  assumes "plot_images images y_pred logits cls_true cls_pred img_shape reshape_arg = Inr fig"
  shows "\<exists>n. shape_at images 0 = Inr n \<and> 2 \<le> n
    \<and> fig_rows fig = n \<and> fig_cols fig = 3 \<and> length (fig_axes fig) = n * 3
    \<and> (\<forall>i < n. bar_panel y_pred i blank_axes = Inr (fig_axes fig ! (i * 3 + 1))
              \<and> bar_panel logits i blank_axes = Inr (fig_axes fig ! (i * 3 + 2)))"
proof -
  from assms obtain n fig0 axes col0 axs0 col1 axs1 col2 axs2
    where n: "shape_at images 0 = Inr n"
      and sub: "subplots n 3 = Inr (fig0 :: 'a figure, axes)"
      and c0: "column axes 0 = Inr col0"
      and l0: "for_axes (image_panel images cls_true cls_pred img_shape reshape_arg)
                 (enumerate 0 col0) (fig_axes (subplots_adjust (1 / 2) (1 / 2) fig0)) = Inr axs0"
      and c1: "column axes 1 = Inr col1"
      and l1: "for_axes (bar_panel y_pred) (enumerate 0 col1) axs0 = Inr axs1"
      and c2: "column axes 2 = Inr col2"
      and l2: "for_axes (bar_panel logits) (enumerate 0 col2) axs1 = Inr axs2"
      and fig: "fig = plt_show ((subplots_adjust (1 / 2) (1 / 2) fig0)\<lparr>fig_axes := axs2\<rparr>)"
    by (auto simp: plot_images_def bindE_eq_Inr Let_def)
  from subplots_column [OF sub c0] have n2: "2 \<le> n"
    and col0: "col0 = map (\<lambda>i. i * 3 + 0) [0..<n]"
    and fig0: "fig0 = (new_figure n 3)\<lparr>fig_cells := [0..<n * 3],
                                fig_axes := replicate (n * 3) blank_axes\<rparr>"
    by simp_all
  from subplots_column [OF sub c1] have col1: "col1 = map (\<lambda>i. i * 3 + 1) [0..<n]" by simp
  from subplots_column [OF sub c2] have col2: "col2 = map (\<lambda>i. i * 3 + 2) [0..<n]" by simp
  have st: "fig_axes (subplots_adjust (1 / 2) (1 / 2) fig0) = replicate (n * 3) blank_axes"
    by (simp add: fig0 subplots_adjust_def)
  from column_loop_Inr [OF l0 [unfolded col0 st]]
  have len0: "length axs0 = n * 3"
    and keep0: "\<forall>a. (\<forall>i < n. a \<noteq> i * 3 + 0) \<longrightarrow> axs0 ! a = replicate (n * 3) blank_axes ! a"
    by simp_all
  from column_loop_Inr [OF l1 [unfolded col1] len0]
  have len1: "length axs1 = n * 3"
    and run1: "\<forall>i < n. bar_panel y_pred i (axs0 ! (i * 3 + 1)) = Inr (axs1 ! (i * 3 + 1))"
    and keep1: "\<forall>a. (\<forall>i < n. a \<noteq> i * 3 + 1) \<longrightarrow> axs1 ! a = axs0 ! a"
    by simp_all
  from column_loop_Inr [OF l2 [unfolded col2] len1]
  have len2: "length axs2 = n * 3"
    and run2: "\<forall>i < n. bar_panel logits i (axs1 ! (i * 3 + 2)) = Inr (axs2 ! (i * 3 + 2))"
    and keep2: "\<forall>a. (\<forall>i < n. a \<noteq> i * 3 + 2) \<longrightarrow> axs2 ! a = axs1 ! a"
    by simp_all
  have panels: "\<forall>i < n. bar_panel y_pred i blank_axes = Inr (axs2 ! (i * 3 + 1))
              \<and> bar_panel logits i blank_axes = Inr (axs2 ! (i * 3 + 2))"
  proof (intro allI impI)
    fix i assume i: "i < n"
    have in1: "i * 3 + 1 < n * 3" and in2: "i * 3 + 2 < n * 3" using i by simp_all
    have a: "\<forall>k < n. i * 3 + 1 \<noteq> k * 3 + 0" by presburger
    have b: "\<forall>k < n. i * 3 + 2 \<noteq> k * 3 + 0" by presburger
    have c: "\<forall>k < n. i * 3 + 2 \<noteq> k * 3 + 1" by presburger
    have d: "\<forall>k < n. i * 3 + 1 \<noteq> k * 3 + 2" by presburger
    have e1: "axs0 ! (i * 3 + 1) = blank_axes"
      using keep0 [rule_format, of "i * 3 + 1"] a in1 by simp
    have e2: "axs2 ! (i * 3 + 1) = axs1 ! (i * 3 + 1)"
      using keep2 [rule_format, of "i * 3 + 1"] d by simp
    have e3: "axs1 ! (i * 3 + 2) = axs0 ! (i * 3 + 2)"
      using keep1 [rule_format, of "i * 3 + 2"] c by simp
    have e4: "axs0 ! (i * 3 + 2) = blank_axes"
      using keep0 [rule_format, of "i * 3 + 2"] b in2 by simp
    from run1 [rule_format, OF i]
    have r1: "bar_panel y_pred i blank_axes = Inr (axs2 ! (i * 3 + 1))"
      by (simp only: e1 e2)
    from run2 [rule_format, OF i]
    have r2: "bar_panel logits i blank_axes = Inr (axs2 ! (i * 3 + 2))"
      by (simp only: e3 e4)
    from r1 r2 show "bar_panel y_pred i blank_axes = Inr (axs2 ! (i * 3 + 1))
              \<and> bar_panel logits i blank_axes = Inr (axs2 ! (i * 3 + 2))" by simp
  qed
  show ?thesis
    using n n2 len2 panels
    by (intro exI [of _ n]) (simp add: fig fig0 plt_show_def subplots_adjust_def new_figure_def)
qed

section \<open>The transposed weight matrix and the autoencoder panels\<close>

lemma transpose_matrix:
  assumes "wf_array w" and "shape w = [p, u]"
  shows "wf_array (transpose_array w)" and "shape (transpose_array w) = [u, p]"
  using assms by (simp_all add: transpose_array_def wf_array_def)

lemma autoencoder_panel_ok:
  assumes "wf_array a" and "shape a = [u, 784]" and "count < u"
  shows "autoencoder_panel a count =
      Inr (set_yticks [] (set_xticks []
        (blank_axes\<lparr>ax_images :=
           [\<lparr>img_data = \<lparr>shape = [28, 28], elems = block (elems a) 784 count\<rparr>,
             img_vmin = None, img_vmax = None, img_cmap = Some ''binary'',
             img_interpolation = None, img_aspect = None\<rparr>]\<rparr>)))"
proof -
  have ne: "[784 :: nat] \<noteq> []" by simp
  note row = row_slice_ok [OF assms(1,2) ne assms(3)]
  show ?thesis
    using row(2)
    by (simp add: autoencoder_panel_def row(1) reshape_def imshow_def image_shape_ok_def
        blank_axes_def)
qed

lemma autoencoder_panel_out_of_range:
  assumes "shape a = [u, 784]" and "u \<le> count"
  shows "autoencoder_panel a count = Inl IndexError"
  using assms by (simp add: autoencoder_panel_def row_slice_out_of_range)

lemma autoencoder_pairs:
  "zip (grid_cells ((new_figure 10 10)\<lparr>fig_hspace := Some 0, fig_wspace := Some 0,
        fig_margins := Some (1, 0, 1, 0)\<rparr> :: 'a figure)) [0..<784]
     = map (\<lambda>i. (i, i)) [0..<100]"
proof -
  have "zip [0..<784] [0..<100] = map (\<lambda>i. (i, i)) [0..<100]"
    by (rule zip_upt_diag) simp
  then have "map (\<lambda>(x, y). (y, x)) (zip [0..<784] [0..<100])
      = map (\<lambda>(x, y). (y, x)) (map (\<lambda>i. (i, i)) [0..<100 :: nat])"
    by simp
  then have "zip [0..<100] [0..<784] = map (\<lambda>i. (i, i)) [0..<100 :: nat]"
    by (simp add: zip_commute [of "[0..<100]" "[0..<784]"] comp_def)
  then show ?thesis
    by (simp add: grid_cells_def new_figure_def)
qed

lemma autoencoder_too_few_units:
  assumes "wf_array w" and "shape w = [784, u]" and "u < 100"
  shows "plot_autoencoder_weights w = Inl IndexError"
proof -
  let ?t = "transpose_array w"
  note t = transpose_matrix [OF assms(1,2)]
  have dims: "shape_at ?t (Suc 0) = Inr 784" by (simp add: shape_at_def t(2))
  from image_grid_pos [of 784] obtain c where grid: "image_grid 784 = Inr (ceil_sqrt 784, c)"
    by auto
  let ?ps = "map (\<lambda>i. (i, i)) [0..<100 :: nat]"
  have loop: "for_cells (autoencoder_panel ?t) ?ps [] = Inl IndexError"
  proof (rule for_cells_Inl [where k = u])
    show "u < length ?ps" using assms(3) by simp
    show "autoencoder_panel ?t (snd (?ps ! u)) = Inl IndexError"
      using assms(3) by (simp add: autoencoder_panel_out_of_range [OF t(2)])
    show "\<forall>j < u. \<not> isl (autoencoder_panel ?t (snd (?ps ! j)))"
    proof (intro allI impI)
      fix j assume j: "j < u"
      then have "snd (?ps ! j) = j" using assms(3) by simp
      then show "\<not> isl (autoencoder_panel ?t (snd (?ps ! j)))"
        by (simp add: autoencoder_panel_ok [OF t j])
    qed
  qed
  show ?thesis
    by (simp add: plot_autoencoder_weights_def Let_def dims grid gridspec_def autoencoder_pairs
        loop)
qed

lemma autoencoder_hundred_units:
  assumes "wf_array w" and "shape w = [784, u]" and "100 \<le> u"
  shows "\<exists>fig. plot_autoencoder_weights w = Inr fig
    \<and> fig_rows fig = 10 \<and> fig_cols fig = 10 \<and> fig_cells fig = [0..<100]
    \<and> length (fig_axes fig) = 100
    \<and> (\<forall>k < 100. \<exists>im. ax_images (fig_axes fig ! k) = [im]
          \<and> img_data im = \<lparr>shape = [28, 28],
               elems = block (elems (transpose_array w)) 784 k\<rparr>)"
proof -
  let ?t = "transpose_array w"
  let ?ax = "\<lambda>k. set_yticks [] (set_xticks []
        (blank_axes\<lparr>ax_images :=
           [\<lparr>img_data = \<lparr>shape = [28, 28], elems = block (elems ?t) 784 k\<rparr>,
             img_vmin = None, img_vmax = None, img_cmap = Some ''binary'',
             img_interpolation = None, img_aspect = None\<rparr>]\<rparr>))"
  note t = transpose_matrix [OF assms(1,2)]
  have dims: "shape_at ?t (Suc 0) = Inr 784" by (simp add: shape_at_def t(2))
  from image_grid_pos [of 784] obtain c where grid: "image_grid 784 = Inr (ceil_sqrt 784, c)"
    by auto
  let ?ps = "map (\<lambda>i. (i, i)) [0..<100 :: nat]"
  have body: "\<forall>(cell, count) \<in> set ?ps. autoencoder_panel ?t count = Inr (?ax count)"
  proof (clarify)
    fix cell count assume "(cell, count) \<in> set ?ps"
    then have "count < u" using assms(3) by auto
    then show "autoencoder_panel ?t count = Inr (?ax count)"
      by (rule autoencoder_panel_ok [OF t])
  qed
  have loop: "for_cells (autoencoder_panel ?t) ?ps [] = Inr (map (\<lambda>k. (k, ?ax k)) [0..<100])"
    unfolding for_cells_Inr using body by auto
  have run: "plot_autoencoder_weights w =
      Inr (plt_show (((new_figure 10 10)\<lparr>fig_hspace := Some 0, fig_wspace := Some 0,
              fig_margins := Some (1, 0, 1, 0)\<rparr>)
            \<lparr>fig_cells := map fst (map (\<lambda>k. (k, ?ax k)) [0..<100]),
              fig_axes := map snd (map (\<lambda>k. (k, ?ax k)) [0..<100])\<rparr>))"
    by (simp add: plot_autoencoder_weights_def Let_def dims grid gridspec_def autoencoder_pairs
        loop del: map_map)
  define fig where "fig = plt_show (((new_figure 10 10)\<lparr>fig_hspace := Some 0,
              fig_wspace := Some 0, fig_margins := Some (1, 0, 1, 0)\<rparr>)
            \<lparr>fig_cells := map fst (map (\<lambda>k. (k, ?ax k)) [0..<100]),
              fig_axes := map snd (map (\<lambda>k. (k, ?ax k)) [0..<100])\<rparr>)"
  have "plot_autoencoder_weights w = Inr fig"
    by (simp only: run fig_def)
  moreover have "fig_rows fig = 10" and "fig_cols fig = 10"
    by (simp_all add: fig_def plt_show_def new_figure_def)
  moreover have "fig_cells fig = [0..<100]"
    by (simp add: fig_def plt_show_def comp_def)
  moreover have axes: "fig_axes fig = map ?ax [0..<100]"
    by (simp add: fig_def plt_show_def comp_def)
  moreover have "length (fig_axes fig) = 100"
    by (simp add: axes)
  moreover have "\<forall>k < 100. \<exists>im. ax_images (fig_axes fig ! k) = [im]
          \<and> img_data im = \<lparr>shape = [28, 28],
               elems = block (elems (transpose_array w)) 784 k\<rparr>"
    by (simp add: axes set_xticks_def set_yticks_def)
  ultimately show ?thesis
    by blast
qed

lemma autoencoder_at_most_hundred:
  assumes "plot_autoencoder_weights w = Inr fig"
  shows "fig_rows fig = 10 \<and> fig_cols fig = 10 \<and> length (fig_axes fig) \<le> 100"
proof -
  from assms obtain n grid drawn
    where spec: "gridspec 10 10 = Inr (grid :: 'a figure)"
      and loop: "for_cells (autoencoder_panel (transpose_array w))
                   (zip (grid_cells grid) [0..<n]) [] = Inr drawn"
      and fig: "fig = plt_show (grid\<lparr>fig_cells := map fst drawn, fig_axes := map snd drawn\<rparr>)"
    by (auto simp: plot_autoencoder_weights_def bindE_eq_Inr Let_def)
  from spec have g: "fig_rows grid = 10 \<and> fig_cols grid = 10"
    by (auto simp: gridspec_def new_figure_def)
  from loop have "drawn = map (\<lambda>(c, n). (c, projr (autoencoder_panel (transpose_array w) n)))
      (zip (grid_cells grid) [0..<n])"
    unfolding for_cells_Inr by simp
  then have "length drawn \<le> 100"
    using g by (simp add: grid_cells_def)
  then show ?thesis
    using g by (simp add: fig plt_show_def)
qed

section \<open>Slices of a kernel and the layer-output panels\<close>

lemma concat_singletons: "concat (map (\<lambda>k. [g k]) xs) = map g xs"
  by (induction xs) simp_all

lemma block_one:
  assumes "j < length xs"
  shows "block xs 1 j = [xs ! j]"
proof -
  have "drop j xs = xs ! j # drop (Suc j) xs"
    using assms by (rule Cons_nth_drop_Suc [symmetric])
  then show ?thesis by (simp add: block_def)
qed

lemma slice_index_bound:
  fixes k n c ci i f :: nat
  assumes "k < n" and "c < ci" and "i < f"
  shows "(k * ci + c) * f + i < n * ci * f"
proof -
  have "Suc k * ci \<le> n * ci" using assms(1) by (intro mult_le_mono1) simp
  then have q: "Suc (k * ci + c) \<le> n * ci" using assms(2) by simp
  have "Suc (k * ci + c) * f \<le> n * ci * f" using q by (rule mult_le_mono1)
  then show ?thesis using assms(3) by simp
qed

lemma filter_slice_entries:
  assumes "wf_array a" and "shape a = [h, w, ci, f]" and "c < ci" and "i < f"
  shows "filter_slice a (int c) i =
      Inr \<lparr>shape = [h, w], elems = map (\<lambda>k. elems a ! ((k * ci + c) * f + i)) [0..<h * w]\<rparr>"
proof -
  have len: "length (elems a) = h * w * ci * f"
    using assms(1,2) by (simp add: wf_array_def mult.assoc)
  have "map (\<lambda>k. block (elems a) 1 ((k * ci + c) * f + i)) [0..<h * w]
      = map (\<lambda>k. [elems a ! ((k * ci + c) * f + i)]) [0..<h * w]"
  proof (rule map_cong [OF refl])
    fix k assume "k \<in> set [0..<h * w]"
    then have "k < h * w" by simp
    from slice_index_bound [OF this assms(3,4)]
    have "(k * ci + c) * f + i < length (elems a)" by (simp add: len)
    then show "block (elems a) 1 ((k * ci + c) * f + i) = [elems a ! ((k * ci + c) * f + i)]"
      by (rule block_one)
  qed
  then have "concat (map (\<lambda>k. block (elems a) 1 ((k * ci + c) * f + i)) [0..<h * w])
      = map (\<lambda>k. elems a ! ((k * ci + c) * f + i)) [0..<h * w]"
    by (simp only: concat_singletons)
  then show ?thesis
    using assms(2,3,4) by (simp add: filter_slice_def py_index_def)
qed

lemma layer_slice_entries:
  assumes "wf_array a" and "shape a = [b, h, w, f]" and "0 < b" and "i < f"
  shows "layer_slice a i =
      Inr \<lparr>shape = [h, w], elems = map (\<lambda>k. elems a ! (k * f + i)) [0..<h * w]\<rparr>"
proof -
  have len: "length (elems a) = b * (h * w) * f"
    using assms(1,2) by (simp add: wf_array_def mult.assoc)
  have "map (\<lambda>k. block (elems a) 1 (k * f + i)) [0..<h * w]
      = map (\<lambda>k. [elems a ! (k * f + i)]) [0..<h * w]"
  proof (rule map_cong [OF refl])
    fix k assume "k \<in> set [0..<h * w]"
    then have k: "k < h * w" by simp
    have "Suc k * f \<le> (h * w) * f" using k by (intro mult_le_mono1) simp
    then have "k * f + i < (h * w) * f" using assms(4) by simp
    moreover have "(h * w) * f \<le> b * ((h * w) * f)" using assms(3) by simp
    ultimately have "k * f + i < b * ((h * w) * f)" by (rule less_le_trans)
    then have "k * f + i < length (elems a)"
      by (simp only: len mult.assoc)
    then show "block (elems a) 1 (k * f + i) = [elems a ! (k * f + i)]"
      by (rule block_one)
  qed
  then have "concat (map (\<lambda>k. block (elems a) 1 (k * f + i)) [0..<h * w])
      = map (\<lambda>k. elems a ! (k * f + i)) [0..<h * w]"
    by (simp only: concat_singletons)
  then show ?thesis
    using assms(2,3,4) by (simp add: layer_slice_def)
qed

lemma conv_layer_panel_Inr:
  assumes "conv_layer_panel layer_output f i blank_axes = Inr ax"
  shows "(i < f \<longrightarrow> (\<exists>im. ax_images ax = [im] \<and> layer_slice layer_output i = Inr (img_data im)))
    \<and> (f \<le> i \<longrightarrow> ax_images ax = [])
    \<and> ax_xticks ax = Some [] \<and> ax_yticks ax = Some []"
  using assms
  by (auto simp: conv_layer_panel_def bindE_eq_Inr imshow_def set_xticks_def set_yticks_def
      blank_axes_def split: if_splits)

lemma conv_layer_panel_ok:
  assumes "shape layer_output = [b, h, w, f]" and "0 < b"
  shows "\<not> isl (conv_layer_panel layer_output f i blank_axes)"
proof (cases "i < f")
  case True
  then have "\<exists>es. layer_slice layer_output i = Inr \<lparr>shape = [h, w], elems = es\<rparr>"
    using assms by (simp add: layer_slice_def)
  then obtain es where "layer_slice layer_output i = Inr \<lparr>shape = [h, w], elems = es\<rparr>"
    by blast
  then show ?thesis
    using True by (simp add: conv_layer_panel_def imshow_def image_shape_ok_def)
next
  case False
  then show ?thesis by (simp add: conv_layer_panel_def)
qed

lemma plot_conv_layer_Inr:
  assumes "plot_conv_layer layer_output = Inr fig"
  shows "\<exists>f. shape_at layer_output 3 = Inr f
    \<and> fig_rows fig = ceil_sqrt f \<and> fig_cols fig = ceil_sqrt f
    \<and> length (fig_axes fig) = ceil_sqrt f * ceil_sqrt f
    \<and> (\<forall>i < ceil_sqrt f * ceil_sqrt f.
          conv_layer_panel layer_output f i blank_axes = Inr (fig_axes fig ! i))"
proof -
  from assms obtain f fig0 axes panels axs
    where f: "shape_at layer_output 3 = Inr f"
      and sub: "subplots (ceil_sqrt f) (ceil_sqrt f) = Inr (fig0 :: 'a figure, axes)"
      and fl: "flat axes = Inr panels"
      and loop: "for_axes (conv_layer_panel layer_output f) (enumerate 0 panels)
                   (fig_axes fig0) = Inr axs"
      and fig: "fig = plt_show (fig0\<lparr>fig_axes := axs\<rparr>)"
    by (auto simp: plot_conv_layer_def bindE_eq_Inr Let_def)
  let ?g = "ceil_sqrt f"
  from subplots_flat [OF sub fl] have panels: "panels = [0..<?g * ?g]"
    and fig0: "fig0 = (new_figure ?g ?g)\<lparr>fig_cells := [0..<?g * ?g],
                                fig_axes := replicate (?g * ?g) blank_axes\<rparr>"
    by simp_all
  have "for_axes (conv_layer_panel layer_output f) (enumerate 0 [0..<?g * ?g])
          (replicate (?g * ?g) blank_axes) = Inr axs"
    using loop by (simp add: panels fig0)
  from flat_loop_Inr [OF this] have "length axs = ?g * ?g"
    and "\<forall>i < ?g * ?g. conv_layer_panel layer_output f i blank_axes = Inr (axs ! i)"
    by simp_all
  then show ?thesis
    using f by (simp add: fig fig0 plt_show_def new_figure_def)
qed

lemma ceil_sqrt_not_one: "2 \<le> f \<Longrightarrow> ceil_sqrt f \<noteq> 1"
proof
  assume "2 \<le> f" and "ceil_sqrt f = 1"
  with ceil_sqrt_spec [of f] have "f \<le> 1" by simp
  with \<open>2 \<le> f\<close> show False by simp
qed

lemma plot_conv_layer_ok:
  assumes "shape layer_output = [b, h, w, f]" and "0 < b" and "2 \<le> f"
  shows "\<exists>fig. plot_conv_layer layer_output = Inr fig"
proof -
  have f: "shape_at layer_output 3 = Inr f" using assms(1) by (simp add: shape_at_def)
  let ?g = "ceil_sqrt f"
  have "?g \<noteq> 1" using assms(3) by (rule ceil_sqrt_not_one)
  moreover have "0 < ?g" using assms(3) by (intro ceil_sqrt_pos) simp
  ultimately obtain axes where sub: "subplots ?g ?g =
        Inr ((new_figure ?g ?g)\<lparr>fig_cells := [0..<?g * ?g],
                                fig_axes := replicate (?g * ?g) blank_axes\<rparr> :: 'a figure, axes)"
      and fl: "flat axes = Inr [0..<?g * ?g]"
    using subplots_grid [of ?g ?g] by blast
  have "\<forall>i < ?g * ?g. \<not> isl (conv_layer_panel layer_output f i blank_axes)"
    using conv_layer_panel_ok [OF assms(1,2)] by simp
  from flat_loop_success [where body = "conv_layer_panel layer_output f"
      and m = "?g * ?g", OF this] obtain axs
    where "for_axes (conv_layer_panel layer_output f) (enumerate 0 [0..<?g * ?g])
             (replicate (?g * ?g) blank_axes) = Inr axs" by blast
  then show ?thesis
    by (simp add: plot_conv_layer_def f sub fl Let_def)
qed

lemma ceil_sqrt_10: "ceil_sqrt 10 = 4"
  by (rule ceil_sqrt_unique) (auto simp: less_Suc_eq numeral_eq_Suc)

lemma ceil_sqrt_5: "ceil_sqrt 5 = 3"
  by (rule ceil_sqrt_unique) (auto simp: less_Suc_eq numeral_eq_Suc)

section \<open>Finished runs of the grid-sizing visualizers\<close>

lemma conv_weights_finished:
  assumes run: "plot_conv_weights weights input_channel = Inr fig"
  shows "\<exists>f. shape_at weights 3 = Inr f
            \<and> int (fig_rows fig) = \<lceil>sqrt (real f)\<rceil> \<and> fig_cols fig = fig_rows fig
            \<and> f \<le> fig_rows fig * fig_cols fig
            \<and> length (fig_axes fig) = fig_rows fig * fig_cols fig
            \<and> (\<forall>i < fig_rows fig * fig_cols fig.
                  (i < f \<longrightarrow> (\<exists>im. ax_images (fig_axes fig ! i) = [im]
                      \<and> filter_slice weights (case input_channel of None \<Rightarrow> 0 | Some c \<Rightarrow> c) i
                          = Inr (img_data im)))
                \<and> (f \<le> i \<longrightarrow> ax_images (fig_axes fig ! i) = []))"
proof -
  let ?c = "case input_channel of None \<Rightarrow> 0 | Some c \<Rightarrow> c"
  from plot_conv_weights_Inr [OF run] obtain f lo hi
    where f: "shape_at weights 3 = Inr f"
      and rows: "fig_rows fig = ceil_sqrt f" and cols: "fig_cols fig = ceil_sqrt f"
      and len: "length (fig_axes fig) = ceil_sqrt f * ceil_sqrt f"
      and panels: "\<forall>i < ceil_sqrt f * ceil_sqrt f.
          conv_weights_panel weights ?c f lo hi i blank_axes = Inr (fig_axes fig ! i)"
    by blast
  have cover: "f \<le> ceil_sqrt f * ceil_sqrt f"
    using ceil_sqrt_spec [of f] by simp
  have each: "\<forall>i < ceil_sqrt f * ceil_sqrt f.
      (i < f \<longrightarrow> (\<exists>im. ax_images (fig_axes fig ! i) = [im]
                      \<and> filter_slice weights ?c i = Inr (img_data im)))
      \<and> (f \<le> i \<longrightarrow> ax_images (fig_axes fig ! i) = [])"
  proof (intro allI impI)
    fix i assume "i < ceil_sqrt f * ceil_sqrt f"
    from conv_weights_panel_Inr [OF panels [rule_format, OF this]]
    show "(i < f \<longrightarrow> (\<exists>im. ax_images (fig_axes fig ! i) = [im]
                      \<and> filter_slice weights ?c i = Inr (img_data im)))
      \<and> (f \<le> i \<longrightarrow> ax_images (fig_axes fig ! i) = [])"
      by blast
  qed
  show ?thesis
    using f cover len each by (intro exI [of _ f]) (simp add: rows cols ceil_sqrt_real)
qed

lemma conv_layer_finished:
  assumes run: "plot_conv_layer layer_output = Inr fig"
  shows "\<exists>f. shape_at layer_output 3 = Inr f
            \<and> int (fig_rows fig) = \<lceil>sqrt (real f)\<rceil> \<and> fig_cols fig = fig_rows fig
            \<and> f \<le> fig_rows fig * fig_cols fig
            \<and> length (fig_axes fig) = fig_rows fig * fig_cols fig
            \<and> (\<forall>i < fig_rows fig * fig_cols fig.
                  (i < f \<longrightarrow> (\<exists>im. ax_images (fig_axes fig ! i) = [im]
                      \<and> layer_slice layer_output i = Inr (img_data im)))
                \<and> (f \<le> i \<longrightarrow> ax_images (fig_axes fig ! i) = []))"
proof -
  from plot_conv_layer_Inr [OF run] obtain f
    where f: "shape_at layer_output 3 = Inr f"
      and rows: "fig_rows fig = ceil_sqrt f" and cols: "fig_cols fig = ceil_sqrt f"
      and len: "length (fig_axes fig) = ceil_sqrt f * ceil_sqrt f"
      and panels: "\<forall>i < ceil_sqrt f * ceil_sqrt f.
          conv_layer_panel layer_output f i blank_axes = Inr (fig_axes fig ! i)"
    by blast
  have cover: "f \<le> ceil_sqrt f * ceil_sqrt f"
    using ceil_sqrt_spec [of f] by simp
  have each: "\<forall>i < ceil_sqrt f * ceil_sqrt f.
      (i < f \<longrightarrow> (\<exists>im. ax_images (fig_axes fig ! i) = [im]
                      \<and> layer_slice layer_output i = Inr (img_data im)))
      \<and> (f \<le> i \<longrightarrow> ax_images (fig_axes fig ! i) = [])"
  proof (intro allI impI)
    fix i assume "i < ceil_sqrt f * ceil_sqrt f"
    from conv_layer_panel_Inr [OF panels [rule_format, OF this]]
    show "(i < f \<longrightarrow> (\<exists>im. ax_images (fig_axes fig ! i) = [im]
                      \<and> layer_slice layer_output i = Inr (img_data im)))
      \<and> (f \<le> i \<longrightarrow> ax_images (fig_axes fig ! i) = [])"
      by blast
  qed
  show ?thesis
    using f cover len each by (intro exI [of _ f]) (simp add: rows cols ceil_sqrt_real)
qed

lemma collection_finished:
  assumes run: "save_image_collection images filename = Inr cfig"
  shows "\<exists>m. shape_at images 0 = Inr m
            \<and> int (fig_rows cfig) = \<lceil>sqrt (real m)\<rceil>
            \<and> int (fig_cols cfig) = \<lceil>real m / real (fig_rows cfig)\<rceil>
            \<and> m \<le> fig_rows cfig * fig_cols cfig
            \<and> fig_cells cfig = [0..<m]"
proof -
  from save_image_collection_Inr [OF run] obtain m
    where m: "shape_at images 0 = Inr m"
      and grid: "image_grid m = Inr (fig_rows cfig, fig_cols cfig)"
      and cells: "fig_cells cfig = [0..<m]"
    by blast
  from image_grid_Inr [OF grid] have "fig_rows cfig = ceil_sqrt m"
    and "int (fig_cols cfig) = \<lceil>real m / real (fig_rows cfig)\<rceil>"
    and "m \<le> fig_rows cfig * fig_cols cfig"
    by blast+
  then show ?thesis
    using m cells ceil_sqrt_real [of m] by (intro exI [of _ m]) simp
qed

lemma conv_weights_default_run:
  assumes wf: "wf_array weights" and sh: "shape weights = [h, w, ci, f]"
    and pos: "0 < h" "0 < w" "0 < ci" and f2: "2 \<le> f"
  shows "\<exists>fig. plot_conv_weights weights None = Inr fig
    \<and> fig_rows fig = ceil_sqrt f \<and> fig_cols fig = ceil_sqrt f
    \<and> length (fig_axes fig) = ceil_sqrt f * ceil_sqrt f
    \<and> (\<forall>i < f. \<exists>im. ax_images (fig_axes fig ! i) = [im]
          \<and> img_data im = \<lparr>shape = [h, w],
               elems = map (\<lambda>k. elems weights ! ((k * ci + 0) * f + i)) [0..<h * w]\<rparr>)
    \<and> (\<forall>i. f \<le> i \<and> i < ceil_sqrt f * ceil_sqrt f \<longrightarrow> ax_images (fig_axes fig ! i) = [])"
proof -
  have "length (elems weights) = h * w * ci * f"
    using wf sh by (simp add: wf_array_def mult.assoc)
  moreover have "0 < h * w * ci * f" using pos f2 by simp
  ultimately have ne: "elems weights \<noteq> []" by auto
  from plot_conv_weights_ok [OF sh ne pos(3) f2] obtain fig
    where run: "plot_conv_weights weights None = Inr fig" by blast
  from plot_conv_weights_Inr [OF run] obtain f' lo hi
    where f': "shape_at weights 3 = Inr f'"
      and rows: "fig_rows fig = ceil_sqrt f'" and cols: "fig_cols fig = ceil_sqrt f'"
      and len: "length (fig_axes fig) = ceil_sqrt f' * ceil_sqrt f'"
      and panels: "\<forall>i < ceil_sqrt f' * ceil_sqrt f'.
          conv_weights_panel weights (case None of None \<Rightarrow> 0 | Some c \<Rightarrow> c) f' lo hi i
            blank_axes = Inr (fig_axes fig ! i)"
    by blast
  have ff: "f' = f" using f' sh by (simp add: shape_at_def)
  have cover: "f \<le> ceil_sqrt f * ceil_sqrt f"
    using ceil_sqrt_spec [of f] by simp
  have filled: "\<forall>i < f. \<exists>im. ax_images (fig_axes fig ! i) = [im]
          \<and> img_data im = \<lparr>shape = [h, w],
               elems = map (\<lambda>k. elems weights ! ((k * ci + 0) * f + i)) [0..<h * w]\<rparr>"
  proof (intro allI impI)
    fix i assume i: "i < f"
    then have "i < ceil_sqrt f' * ceil_sqrt f'" using cover ff by simp
    from panels [rule_format, OF this]
    have "conv_weights_panel weights 0 f lo hi i blank_axes = Inr (fig_axes fig ! i)"
      by (simp add: ff)
    from conv_weights_panel_Inr [OF this] i obtain im
      where im: "ax_images (fig_axes fig ! i) = [im]"
        and slice: "filter_slice weights 0 i = Inr (img_data im)"
      by blast
    from filter_slice_entries [OF wf sh pos(3) i]
    have "filter_slice weights 0 i = Inr \<lparr>shape = [h, w],
               elems = map (\<lambda>k. elems weights ! ((k * ci + 0) * f + i)) [0..<h * w]\<rparr>"
      by simp
    with slice have "img_data im = \<lparr>shape = [h, w],
               elems = map (\<lambda>k. elems weights ! ((k * ci + 0) * f + i)) [0..<h * w]\<rparr>"
      by simp
    with im show "\<exists>im. ax_images (fig_axes fig ! i) = [im]
          \<and> img_data im = \<lparr>shape = [h, w],
               elems = map (\<lambda>k. elems weights ! ((k * ci + 0) * f + i)) [0..<h * w]\<rparr>"
      by blast
  qed
  have blank: "\<forall>i. f \<le> i \<and> i < ceil_sqrt f * ceil_sqrt f \<longrightarrow>
      ax_images (fig_axes fig ! i) = []"
  proof (intro allI impI)
    fix i assume i: "f \<le> i \<and> i < ceil_sqrt f * ceil_sqrt f"
    then have "i < ceil_sqrt f' * ceil_sqrt f'" by (simp add: ff)
    from panels [rule_format, OF this]
    have "conv_weights_panel weights 0 f lo hi i blank_axes = Inr (fig_axes fig ! i)"
      by (simp add: ff)
    from conv_weights_panel_Inr [OF this] i
    show "ax_images (fig_axes fig ! i) = []" by blast
  qed
  show ?thesis
    using run rows [unfolded ff] cols [unfolded ff] len [unfolded ff] filled blank
    by (intro exI [of _ fig] conjI)
qed

lemma conv_layer_run:
  assumes wf: "wf_array layer_output" and sh: "shape layer_output = [b, h, w, f]"
    and pos: "0 < b" and f2: "2 \<le> f"
  shows "\<exists>fig. plot_conv_layer layer_output = Inr fig
    \<and> fig_rows fig = ceil_sqrt f \<and> fig_cols fig = ceil_sqrt f
    \<and> length (fig_axes fig) = ceil_sqrt f * ceil_sqrt f
    \<and> (\<forall>i < f. \<exists>im. ax_images (fig_axes fig ! i) = [im]
          \<and> img_data im = \<lparr>shape = [h, w],
               elems = map (\<lambda>k. elems layer_output ! (k * f + i)) [0..<h * w]\<rparr>)
    \<and> (\<forall>i. f \<le> i \<and> i < ceil_sqrt f * ceil_sqrt f \<longrightarrow> ax_images (fig_axes fig ! i) = [])"
proof -
  from plot_conv_layer_ok [OF sh pos f2] obtain fig
    where run: "plot_conv_layer layer_output = Inr fig" by blast
  from plot_conv_layer_Inr [OF run] obtain f'
    where f': "shape_at layer_output 3 = Inr f'"
      and rows: "fig_rows fig = ceil_sqrt f'" and cols: "fig_cols fig = ceil_sqrt f'"
      and len: "length (fig_axes fig) = ceil_sqrt f' * ceil_sqrt f'"
      and panels: "\<forall>i < ceil_sqrt f' * ceil_sqrt f'.
          conv_layer_panel layer_output f' i blank_axes = Inr (fig_axes fig ! i)"
    by blast
  have ff: "f' = f" using f' sh by (simp add: shape_at_def)
  have cover: "f \<le> ceil_sqrt f * ceil_sqrt f"
    using ceil_sqrt_spec [of f] by simp
  have filled: "\<forall>i < f. \<exists>im. ax_images (fig_axes fig ! i) = [im]
          \<and> img_data im = \<lparr>shape = [h, w],
               elems = map (\<lambda>k. elems layer_output ! (k * f + i)) [0..<h * w]\<rparr>"
  proof (intro allI impI)
    fix i assume i: "i < f"
    then have "i < ceil_sqrt f' * ceil_sqrt f'" using cover ff by simp
    from panels [rule_format, OF this]
    have "conv_layer_panel layer_output f i blank_axes = Inr (fig_axes fig ! i)"
      by (simp add: ff)
    from conv_layer_panel_Inr [OF this] i obtain im
      where im: "ax_images (fig_axes fig ! i) = [im]"
        and slice: "layer_slice layer_output i = Inr (img_data im)"
      by blast
    from layer_slice_entries [OF wf sh pos i] slice
    have "img_data im = \<lparr>shape = [h, w],
               elems = map (\<lambda>k. elems layer_output ! (k * f + i)) [0..<h * w]\<rparr>"
      by simp
    with im show "\<exists>im. ax_images (fig_axes fig ! i) = [im]
          \<and> img_data im = \<lparr>shape = [h, w],
               elems = map (\<lambda>k. elems layer_output ! (k * f + i)) [0..<h * w]\<rparr>"
      by blast
  qed
  have blank: "\<forall>i. f \<le> i \<and> i < ceil_sqrt f * ceil_sqrt f \<longrightarrow>
      ax_images (fig_axes fig ! i) = []"
  proof (intro allI impI)
    fix i assume i: "f \<le> i \<and> i < ceil_sqrt f * ceil_sqrt f"
    then have "i < ceil_sqrt f' * ceil_sqrt f'" by (simp add: ff)
    from panels [rule_format, OF this]
    have "conv_layer_panel layer_output f i blank_axes = Inr (fig_axes fig ! i)"
      by (simp add: ff)
    from conv_layer_panel_Inr [OF this] i
    show "ax_images (fig_axes fig ! i) = []" by blast
  qed
  show ?thesis
    using run rows [unfolded ff] cols [unfolded ff] len [unfolded ff] filled blank
    by (intro exI [of _ fig] conjI)
qed

section \<open>Properties of the plotting helpers\<close>

text \<open>
  C8. For an image batch with exactly one sample \<open>plot_images\<close> raises an IndexError
  and renders nothing: \<^verbatim>\<open>plt.subplots(1, 3)\<close> hands back a one-dimensional array of
  three panels, and the column selection \<^verbatim>\<open>axes[:, 0]\<close> is not defined on it.
\<close>

theorem plot_images_single_sample:
  fixes images :: "'a ndarray"
  assumes "shape images = 1 # rest"
  shows "plot_images images y_pred logits cls_true cls_pred img_shape reshape_arg
           = Inl IndexError
    \<and> (\<exists>fig :: 'a figure. subplots 1 3 = Inr (fig, Ax1D [0, 1, 2]))
    \<and> column (Ax1D [0, 1, 2]) 0 = Inl IndexError"
  using assms
  by (simp add: plot_images_def shape_at_def subplots_def column_def upt_conv_Cons)

theorem plot_images_single_sample_witness:
  "shape \<lparr>shape = [1, 4], elems = [1, 2, 3, 4 :: int]\<rparr> = 1 # [4]
   \<and> plot_images \<lparr>shape = [1, 4], elems = [1, 2, 3, 4 :: int]\<rparr>
        [[1, 0, 0, 0, 0, 0, 0, 0, 0, 0]] [[5, 0, 0, 0, 0, 0, 0, 0, 0, 0]] [0] [0] [2, 2] True
       = Inl IndexError"
  using plot_images_single_sample [of "\<lparr>shape = [1, 4], elems = [1, 2, 3, 4 :: int]\<rparr>" "[4]"
      "[[1, 0, 0, 0, 0, 0, 0, 0, 0, 0]]" "[[5, 0, 0, 0, 0, 0, 0, 0, 0, 0]]" "[0]" "[0]"
      "[2, 2]" True]
  by simp

text \<open>
  C4. In \<open>print_confusion_matrix\<close> the label of the horizontal axis is set twice, to
  "Predicted" and then to "True": the horizontal axis displays "True" and the vertical
  axis has no label. The ticks of both axes are \<open>0, \<dots>, num_classes - 1\<close>, taken from
  the argument \<open>num_classes\<close>, and the matrix drawn is the one computed from the labels
  and the predictions alone.
\<close>

theorem confusion_matrix_axes:
  assumes "confusion_matrix labels predictions = Inr conf_mat"
    and "image_shape_ok (shape conf_mat)"
  shows "\<exists>fig ax.
      print_confusion_matrix confusion_matrix labels predictions num_classes = Inr fig
    \<and> fig_axes fig = [ax]
    \<and> ax_xlabels ax = [''Predicted'', ''True'']
    \<and> ax_ylabels ax = []
    \<and> displayed_xlabel ax = Some ''True''
    \<and> displayed_ylabel ax = None
    \<and> ax_xticks ax = Some [0..<nat num_classes]
    \<and> ax_yticks ax = Some [0..<nat num_classes]
    \<and> ax_xticklabels ax = Some (map str_nat [0..<nat num_classes])
    \<and> ax_yticklabels ax = Some (map str_nat [0..<nat num_classes])
    \<and> map img_data (ax_images ax) = [conf_mat]"
  using assms
  by (simp add: print_confusion_matrix_def imshow_def blank_axes_def plt_xticks_def
      plt_yticks_def set_xlabel_def plt_show_def arange_def displayed_xlabel_def
      displayed_ylabel_def Let_def)

theorem confusion_matrix_axes_witness:
  "(\<lambda>l p. Inr \<lparr>shape = [2, 2], elems = [1, 0, 0, 1]\<rparr>) [0, 1 :: int] [0, 1 :: int]
      = (Inr \<lparr>shape = [2, 2], elems = [1, 0, 0, 1 :: int]\<rparr> :: py_error + int ndarray)
   \<and> image_shape_ok (shape \<lparr>shape = [2, 2], elems = [1, 0, 0, 1 :: int]\<rparr>)
   \<and> (\<exists>fig ax.
        print_confusion_matrix (\<lambda>l p. Inr \<lparr>shape = [2, 2], elems = [1, 0, 0, 1]\<rparr>)
          [0, 1] [0, 1] 2 = Inr fig
      \<and> fig_axes fig = [ax]
      \<and> ax_xlabels ax = [''Predicted'', ''True'']
      \<and> ax_ylabels ax = []
      \<and> displayed_xlabel ax = Some ''True''
      \<and> displayed_ylabel ax = None
      \<and> ax_xticks ax = Some [0, 1]
      \<and> ax_xticklabels ax = Some [''0'', ''1''])"
proof -
  have ticks: "[0..<nat 2] = [0, 1]"
    by (simp add: upt_conv_Cons)
  have texts: "map str_nat [0, 1] = [''0'', ''1'']"
    by (simp add: str_nat.simps)
  have ok: "image_shape_ok (shape \<lparr>shape = [2, 2], elems = [1, 0, 0, 1 :: int]\<rparr>)"
    by (simp add: image_shape_ok_def)
  from confusion_matrix_axes [of "\<lambda>l p. Inr \<lparr>shape = [2, 2], elems = [1, 0, 0, 1]\<rparr>"
        "[0, 1]" "[0, 1]" "\<lparr>shape = [2, 2], elems = [1, 0, 0, 1]\<rparr>" 2, OF refl ok]
  show ?thesis
    unfolding ticks texts using ok by (auto simp del: One_nat_def)
qed

text \<open>
  C7 (amended). For every batch of at least one flattened image of 784 values each and
  every destination path, \<open>save_image_collection\<close> writes exactly one file, named by
  the path followed by \<open>_vis.png\<close>. The grid has \<open>ceil(sqrt(n))\<close> rows and
  \<open>ceil(n / rows)\<close> columns, zero spacing between the panels, and image \<open>k\<close>, reshaped to
  28 by 28, in cell \<open>k\<close>; for nine images it is 3 by 3.
\<close>

theorem save_image_collection_file:
  assumes "wf_array images" and "shape images = n # rest" and "0 < n" and "rest \<noteq> []"
    and "prod_list rest = 784"
  shows "\<exists>fig. save_image_collection images filename = Inr fig
    \<and> fig_saved fig = [filename @ ''_vis.png'']
    \<and> int (fig_rows fig) = \<lceil>sqrt (real n)\<rceil>
    \<and> int (fig_cols fig) = \<lceil>real n / real (fig_rows fig)\<rceil>
    \<and> fig_hspace fig = Some 0 \<and> fig_wspace fig = Some 0
    \<and> fig_cells fig = [0..<n]
    \<and> (\<forall>k < n. ax_images (fig_axes fig ! k) =
          [plain_image \<lparr>shape = [28, 28], elems = block (elems images) 784 k\<rparr>])
    \<and> (n = 9 \<longrightarrow> fig_rows fig = 3 \<and> fig_cols fig = 3)"
proof -
  from save_image_collection_ok [OF assms, of filename] obtain c fig
    where grid: "image_grid n = Inr (ceil_sqrt n, c)"
      and run: "save_image_collection images filename = Inr fig"
      and fig: "fig = \<lparr>fig_rows = ceil_sqrt n, fig_cols = c, fig_hspace = Some 0,
           fig_wspace = Some 0, fig_margins = Some (1, 0, 1, 0), fig_cells = [0..<n],
           fig_axes = map (\<lambda>k. set_yticks [] (set_xticks []
              (blank_axes\<lparr>ax_images :=
                 [plain_image \<lparr>shape = [28, 28], elems = block (elems images) 784 k\<rparr>]\<rparr>)))
              [0..<n],
           fig_tight = False, fig_colorbar = False, fig_shown = False,
           fig_saved = [filename @ ''_vis.png'']\<rparr>"
    by blast
  from image_grid_Inr [OF grid] have cols: "int c = \<lceil>real n / real (ceil_sqrt n)\<rceil>"
    by blast
  have nine: "n = 9 \<longrightarrow> ceil_sqrt n = 3 \<and> c = 3"
  proof
    assume n: "n = 9"
    have "image_grid 9 = Inr (3, 3)"
      by (simp add: image_grid_def ceil_sqrt_9 ceil_div_def)
    with grid n show "ceil_sqrt n = 3 \<and> c = 3" by simp
  qed
  have panels: "\<forall>k < n. ax_images (fig_axes fig ! k) =
          [plain_image \<lparr>shape = [28, 28], elems = block (elems images) 784 k\<rparr>]"
    by (simp add: fig set_xticks_def set_yticks_def)
  show ?thesis
    using run cols nine panels by (intro exI [of _ fig]) (simp add: fig ceil_sqrt_real)
qed

theorem save_image_collection_file_witness:
  "wf_array \<lparr>shape = [9, 784], elems = replicate 7056 (0 :: int)\<rparr>
   \<and> shape \<lparr>shape = [9, 784], elems = replicate 7056 (0 :: int)\<rparr> = 9 # [784]
   \<and> (0 :: nat) < 9 \<and> [784 :: nat] \<noteq> [] \<and> prod_list [784 :: nat] = 784
   \<and> (\<exists>fig. save_image_collection \<lparr>shape = [9, 784], elems = replicate 7056 (0 :: int)\<rparr>
          ''digits'' = Inr fig
        \<and> fig_saved fig = [''digits_vis.png'']
        \<and> fig_rows fig = 3 \<and> fig_cols fig = 3
        \<and> fig_hspace fig = Some 0 \<and> fig_wspace fig = Some 0
        \<and> fig_cells fig = [0, 1, 2, 3, 4, 5, 6, 7, 8])"
proof -
  have wf: "wf_array \<lparr>shape = [9, 784], elems = replicate 7056 (0 :: int)\<rparr>"
    by (simp add: wf_array_def)
  have cells: "[0..<9] = [0, 1, 2, 3, 4, 5, 6, 7, 8 :: nat]"
    by (simp add: upt_conv_Cons)
  from save_image_collection_file [of "\<lparr>shape = [9, 784], elems = replicate 7056 (0 :: int)\<rparr>"
      9 "[784]" "''digits''", OF wf]
  show ?thesis
    using wf unfolding cells by auto
qed

text \<open>The empty batch: no grid, no file, a division by zero.\<close>

theorem save_image_collection_empty_batch:
  "save_image_collection \<lparr>shape = [0, 784], elems = ([] :: int list)\<rparr> ''digits''
     = Inl ZeroDivisionError"
  by (simp add: save_image_collection_def shape_at_def image_grid_zero)

text \<open>
  C2 (amended). \<open>plot_conv_weights\<close> and \<open>plot_conv_layer\<close> lay out a square grid of
  \<open>ceil(sqrt(filter_count))\<close> rows, \<open>save_image_collection\<close> a grid of
  \<open>ceil(sqrt(count))\<close> rows and \<open>ceil(count / rows)\<close> columns; these grids have at least
  as many cells as there are filters or images. In a finished run every panel below the
  count shows its slice and the panels from the count on are blank (the two convolution
  visualizers) or are never created (the collection saver); the runs finish for kernels
  and layer outputs with at least two filters and for batches of at least one image.
  \<open>plot_weights\<close> always uses a 3 by 4 grid and \<open>plot_autoencoder_weights\<close> a 10 by 10
  grid, whatever the count. A kernel of shape (5, 5, 3, 16) gives a 4 by 4 grid whose
  panel \<open>i\<close>, for each of the 16 filters, shows the 5 by 5 slice
  \<open>weights[:, :, 0, i]\<close>: input channel 0 when the channel is left out.
\<close>

theorem grid_sizing:
  fixes weights :: "'a::linorder ndarray" and layer_output :: "'c ndarray"
    and images :: "'b ndarray" and auto_weights :: "'d ndarray"
  shows "(n \<le> ceil_sqrt n * ceil_sqrt n \<and> int (ceil_sqrt n) = \<lceil>sqrt (real n)\<rceil>)
    \<and> (0 < n \<longrightarrow>
         (\<exists>r c. image_grid n = Inr (r, c) \<and> int r = \<lceil>sqrt (real n)\<rceil>
            \<and> int c = \<lceil>real n / real r\<rceil> \<and> n \<le> r * c))
    \<and> (plot_conv_weights weights input_channel = Inr fig \<longrightarrow>
         (\<exists>f. shape_at weights 3 = Inr f
            \<and> int (fig_rows fig) = \<lceil>sqrt (real f)\<rceil> \<and> fig_cols fig = fig_rows fig
            \<and> f \<le> fig_rows fig * fig_cols fig
            \<and> length (fig_axes fig) = fig_rows fig * fig_cols fig
            \<and> (\<forall>i < fig_rows fig * fig_cols fig.
                  (i < f \<longrightarrow> (\<exists>im. ax_images (fig_axes fig ! i) = [im]
                      \<and> filter_slice weights (case input_channel of None \<Rightarrow> 0 | Some c \<Rightarrow> c) i
                          = Inr (img_data im)))
                \<and> (f \<le> i \<longrightarrow> ax_images (fig_axes fig ! i) = []))))
    \<and> (plot_conv_layer layer_output = Inr lfig \<longrightarrow>
         (\<exists>f. shape_at layer_output 3 = Inr f
            \<and> int (fig_rows lfig) = \<lceil>sqrt (real f)\<rceil> \<and> fig_cols lfig = fig_rows lfig
            \<and> f \<le> fig_rows lfig * fig_cols lfig
            \<and> length (fig_axes lfig) = fig_rows lfig * fig_cols lfig
            \<and> (\<forall>i < fig_rows lfig * fig_cols lfig.
                  (i < f \<longrightarrow> (\<exists>im. ax_images (fig_axes lfig ! i) = [im]
                      \<and> layer_slice layer_output i = Inr (img_data im)))
                \<and> (f \<le> i \<longrightarrow> ax_images (fig_axes lfig ! i) = []))))
    \<and> (save_image_collection images filename = Inr cfig \<longrightarrow>
         (\<exists>m. shape_at images 0 = Inr m
            \<and> int (fig_rows cfig) = \<lceil>sqrt (real m)\<rceil>
            \<and> int (fig_cols cfig) = \<lceil>real m / real (fig_rows cfig)\<rceil>
            \<and> m \<le> fig_rows cfig * fig_cols cfig
            \<and> fig_cells cfig = [0..<m]))
    \<and> (wf_array weights \<and> shape weights = [h, w, ci, f] \<and> 0 < h \<and> 0 < w \<and> 0 < ci \<and> 2 \<le> f
        \<longrightarrow> (\<exists>fig'. plot_conv_weights weights None = Inr fig'
            \<and> fig_rows fig' = ceil_sqrt f \<and> fig_cols fig' = ceil_sqrt f
            \<and> length (fig_axes fig') = ceil_sqrt f * ceil_sqrt f
            \<and> (\<forall>i < f. \<exists>im. ax_images (fig_axes fig' ! i) = [im]
                  \<and> img_data im = \<lparr>shape = [h, w],
                       elems = map (\<lambda>k. elems weights ! ((k * ci + 0) * f + i)) [0..<h * w]\<rparr>)
            \<and> (\<forall>i. f \<le> i \<and> i < ceil_sqrt f * ceil_sqrt f \<longrightarrow>
                  ax_images (fig_axes fig' ! i) = [])))
    \<and> (wf_array layer_output \<and> shape layer_output = [lb, lh, lw, lf] \<and> 0 < lb \<and> 2 \<le> lf
        \<longrightarrow> (\<exists>fig'. plot_conv_layer layer_output = Inr fig'
            \<and> fig_rows fig' = ceil_sqrt lf \<and> fig_cols fig' = ceil_sqrt lf
            \<and> length (fig_axes fig') = ceil_sqrt lf * ceil_sqrt lf
            \<and> (\<forall>i < lf. \<exists>im. ax_images (fig_axes fig' ! i) = [im]
                  \<and> img_data im = \<lparr>shape = [lh, lw],
                       elems = map (\<lambda>k. elems layer_output ! (k * lf + i)) [0..<lh * lw]\<rparr>)
            \<and> (\<forall>i. lf \<le> i \<and> i < ceil_sqrt lf * ceil_sqrt lf \<longrightarrow>
                  ax_images (fig_axes fig' ! i) = [])))
    \<and> (wf_array images \<and> shape images = m # rest \<and> 0 < m \<and> rest \<noteq> []
          \<and> prod_list rest = 784
        \<longrightarrow> (\<exists>fig'. save_image_collection images filename = Inr fig'))
    \<and> (wf_array weights \<and> shape weights = [5, 5, 3, 16] \<longrightarrow>
         (\<exists>fig16. plot_conv_weights weights None = Inr fig16
            \<and> fig_rows fig16 = 4 \<and> fig_cols fig16 = 4 \<and> length (fig_axes fig16) = 16
            \<and> (\<forall>i < 16. \<exists>im. ax_images (fig_axes fig16 ! i) = [im]
                  \<and> shape (img_data im) = [5, 5]
                  \<and> length (elems (img_data im)) = 25
                  \<and> (\<forall>y < 5. \<forall>x < 5. elems (img_data im) ! (y * 5 + x)
                        = elems weights ! (((y * 5 + x) * 3 + 0) * 16 + i)))))
    \<and> (plot_weights weights img_shape = Inr wfig \<longrightarrow> fig_rows wfig = 3 \<and> fig_cols wfig = 4)
    \<and> (plot_autoencoder_weights auto_weights = Inr afig \<longrightarrow>
          fig_rows afig = 10 \<and> fig_cols afig = 10)"
proof (intro conjI impI)
  show "n \<le> ceil_sqrt n * ceil_sqrt n"
    using ceil_sqrt_spec [of n] by simp
  show "int (ceil_sqrt n) = \<lceil>sqrt (real n)\<rceil>"
    by (rule ceil_sqrt_real)
next
  assume "0 < n"
  from image_grid_pos [OF this] obtain c where "image_grid n = Inr (ceil_sqrt n, c)"
    and "int c = \<lceil>real n / real (ceil_sqrt n)\<rceil>" and "n \<le> ceil_sqrt n * c"
    by blast
  then show "\<exists>r c. image_grid n = Inr (r, c) \<and> int r = \<lceil>sqrt (real n)\<rceil>
            \<and> int c = \<lceil>real n / real r\<rceil> \<and> n \<le> r * c"
    using ceil_sqrt_real [of n] by blast
next
  assume "plot_conv_weights weights input_channel = Inr fig"
  then show "\<exists>f. shape_at weights 3 = Inr f
            \<and> int (fig_rows fig) = \<lceil>sqrt (real f)\<rceil> \<and> fig_cols fig = fig_rows fig
            \<and> f \<le> fig_rows fig * fig_cols fig
            \<and> length (fig_axes fig) = fig_rows fig * fig_cols fig
            \<and> (\<forall>i < fig_rows fig * fig_cols fig.
                  (i < f \<longrightarrow> (\<exists>im. ax_images (fig_axes fig ! i) = [im]
                      \<and> filter_slice weights (case input_channel of None \<Rightarrow> 0 | Some c \<Rightarrow> c) i
                          = Inr (img_data im)))
                \<and> (f \<le> i \<longrightarrow> ax_images (fig_axes fig ! i) = []))"
    by (rule conv_weights_finished)
next
  assume "plot_conv_layer layer_output = Inr lfig"
  then show "\<exists>f. shape_at layer_output 3 = Inr f
            \<and> int (fig_rows lfig) = \<lceil>sqrt (real f)\<rceil> \<and> fig_cols lfig = fig_rows lfig
            \<and> f \<le> fig_rows lfig * fig_cols lfig
            \<and> length (fig_axes lfig) = fig_rows lfig * fig_cols lfig
            \<and> (\<forall>i < fig_rows lfig * fig_cols lfig.
                  (i < f \<longrightarrow> (\<exists>im. ax_images (fig_axes lfig ! i) = [im]
                      \<and> layer_slice layer_output i = Inr (img_data im)))
                \<and> (f \<le> i \<longrightarrow> ax_images (fig_axes lfig ! i) = []))"
    by (rule conv_layer_finished)
next
  assume "save_image_collection images filename = Inr cfig"
  then show "\<exists>m. shape_at images 0 = Inr m
            \<and> int (fig_rows cfig) = \<lceil>sqrt (real m)\<rceil>
            \<and> int (fig_cols cfig) = \<lceil>real m / real (fig_rows cfig)\<rceil>
            \<and> m \<le> fig_rows cfig * fig_cols cfig
            \<and> fig_cells cfig = [0..<m]"
    by (rule collection_finished)
next
  assume a: "wf_array weights \<and> shape weights = [h, w, ci, f] \<and> 0 < h \<and> 0 < w \<and> 0 < ci
      \<and> 2 \<le> f"
  show "\<exists>fig'. plot_conv_weights weights None = Inr fig'
            \<and> fig_rows fig' = ceil_sqrt f \<and> fig_cols fig' = ceil_sqrt f
            \<and> length (fig_axes fig') = ceil_sqrt f * ceil_sqrt f
            \<and> (\<forall>i < f. \<exists>im. ax_images (fig_axes fig' ! i) = [im]
                  \<and> img_data im = \<lparr>shape = [h, w],
                       elems = map (\<lambda>k. elems weights ! ((k * ci + 0) * f + i)) [0..<h * w]\<rparr>)
            \<and> (\<forall>i. f \<le> i \<and> i < ceil_sqrt f * ceil_sqrt f \<longrightarrow>
                  ax_images (fig_axes fig' ! i) = [])"
    by (rule conv_weights_default_run) (use a in simp_all)
next
  assume a: "wf_array layer_output \<and> shape layer_output = [lb, lh, lw, lf] \<and> 0 < lb \<and> 2 \<le> lf"
  show "\<exists>fig'. plot_conv_layer layer_output = Inr fig'
            \<and> fig_rows fig' = ceil_sqrt lf \<and> fig_cols fig' = ceil_sqrt lf
            \<and> length (fig_axes fig') = ceil_sqrt lf * ceil_sqrt lf
            \<and> (\<forall>i < lf. \<exists>im. ax_images (fig_axes fig' ! i) = [im]
                  \<and> img_data im = \<lparr>shape = [lh, lw],
                       elems = map (\<lambda>k. elems layer_output ! (k * lf + i)) [0..<lh * lw]\<rparr>)
            \<and> (\<forall>i. lf \<le> i \<and> i < ceil_sqrt lf * ceil_sqrt lf \<longrightarrow>
                  ax_images (fig_axes fig' ! i) = [])"
    by (rule conv_layer_run [where b = lb]) (use a in simp_all)
next
  assume a: "wf_array images \<and> shape images = m # rest \<and> 0 < m \<and> rest \<noteq> []
          \<and> prod_list rest = 784"
  then have "wf_array images" "shape images = m # rest" "0 < m" "rest \<noteq> []"
    "prod_list rest = 784" by simp_all
  from save_image_collection_ok [OF this, of filename]
  show "\<exists>fig'. save_image_collection images filename = Inr fig'"
    by blast
next
  assume a: "wf_array weights \<and> shape weights = [5, 5, 3, 16]"
  then have wf: "wf_array weights" and sh: "shape weights = [5, 5, 3, 16]" by simp_all
  from conv_weights_default_run [OF wf sh] obtain fig16
    where run: "plot_conv_weights weights None = Inr fig16"
      and rows: "fig_rows fig16 = ceil_sqrt 16" and cols: "fig_cols fig16 = ceil_sqrt 16"
      and len: "length (fig_axes fig16) = ceil_sqrt 16 * ceil_sqrt 16"
      and filled: "\<forall>i < 16. \<exists>im. ax_images (fig_axes fig16 ! i) = [im]
          \<and> img_data im = \<lparr>shape = [5, 5],
               elems = map (\<lambda>k. elems weights ! ((k * 3 + 0) * 16 + i)) [0..<5 * 5]\<rparr>"
    by auto
  have each: "\<forall>i < 16. \<exists>im. ax_images (fig_axes fig16 ! i) = [im]
                  \<and> shape (img_data im) = [5, 5]
                  \<and> length (elems (img_data im)) = 25
                  \<and> (\<forall>y < 5. \<forall>x < 5. elems (img_data im) ! (y * 5 + x)
                        = elems weights ! (((y * 5 + x) * 3 + 0) * 16 + i))"
  proof (intro allI impI)
    fix i :: nat assume "i < 16"
    from filled [rule_format, OF this] obtain im
      where im: "ax_images (fig_axes fig16 ! i) = [im]"
        and data: "img_data im = \<lparr>shape = [5, 5],
               elems = map (\<lambda>k. elems weights ! ((k * 3 + 0) * 16 + i)) [0..<5 * 5]\<rparr>"
      by blast
    have entries: "\<forall>y < 5. \<forall>x < 5. elems (img_data im) ! (y * 5 + x)
                        = elems weights ! (((y * 5 + x) * 3 + 0) * 16 + i)"
    proof (intro allI impI)
      fix y x :: nat assume "y < 5" and "x < 5"
      then have "y * 5 + x < 25" by simp
      then show "elems (img_data im) ! (y * 5 + x)
                        = elems weights ! (((y * 5 + x) * 3 + 0) * 16 + i)"
        by (simp add: data)
    qed
    have "shape (img_data im) = [5, 5]" and "length (elems (img_data im)) = 25"
      by (simp_all add: data)
    with im entries
    show "\<exists>im. ax_images (fig_axes fig16 ! i) = [im]
                  \<and> shape (img_data im) = [5, 5]
                  \<and> length (elems (img_data im)) = 25
                  \<and> (\<forall>y < 5. \<forall>x < 5. elems (img_data im) ! (y * 5 + x)
                        = elems weights ! (((y * 5 + x) * 3 + 0) * 16 + i))"
      by blast
  qed
  have "fig_rows fig16 = 4" and "fig_cols fig16 = 4" and "length (fig_axes fig16) = 16"
    using rows cols len by (simp_all add: ceil_sqrt_16)
  with run each
  show "\<exists>fig16. plot_conv_weights weights None = Inr fig16
            \<and> fig_rows fig16 = 4 \<and> fig_cols fig16 = 4 \<and> length (fig_axes fig16) = 16
            \<and> (\<forall>i < 16. \<exists>im. ax_images (fig_axes fig16 ! i) = [im]
                  \<and> shape (img_data im) = [5, 5]
                  \<and> length (elems (img_data im)) = 25
                  \<and> (\<forall>y < 5. \<forall>x < 5. elems (img_data im) ! (y * 5 + x)
                        = elems weights ! (((y * 5 + x) * 3 + 0) * 16 + i)))"
    by (intro exI [of _ fig16] conjI)
next
  assume run: "plot_weights weights img_shape = Inr wfig"
  from plot_weights_Inr [OF run] show "fig_rows wfig = 3" and "fig_cols wfig = 4"
    by blast+
next
  assume run: "plot_autoencoder_weights auto_weights = Inr afig"
  from autoencoder_at_most_hundred [OF run] show "fig_rows afig = 10" and "fig_cols afig = 10"
    by blast+
qed


theorem grid_sizing_witness:
  "(10 \<le> ceil_sqrt 10 * ceil_sqrt 10 \<and> int (ceil_sqrt 10) = \<lceil>sqrt (real 10)\<rceil>)
   \<and> (\<exists>r c. image_grid 5 = Inr (r, c) \<and> int r = \<lceil>sqrt (real 5)\<rceil>
          \<and> int c = \<lceil>real 5 / real r\<rceil> \<and> 5 \<le> r * c)
   \<and> (\<exists>fig. plot_conv_weights \<lparr>shape = [5, 5, 3, 10], elems = replicate 750 (0 :: int)\<rparr> None
          = Inr fig
        \<and> fig_rows fig = 4 \<and> fig_cols fig = 4 \<and> length (fig_axes fig) = 16
        \<and> int (fig_rows fig) = \<lceil>sqrt (real 10)\<rceil>
        \<and> (\<forall>i < 10. length (ax_images (fig_axes fig ! i)) = 1)
        \<and> (\<forall>i. 10 \<le> i \<and> i < 16 \<longrightarrow> ax_images (fig_axes fig ! i) = []))
   \<and> (\<exists>lfig. plot_conv_layer \<lparr>shape = [1, 4, 4, 10], elems = replicate 160 (0 :: int)\<rparr>
          = Inr lfig
        \<and> fig_rows lfig = 4 \<and> fig_cols lfig = 4
        \<and> int (fig_rows lfig) = \<lceil>sqrt (real 10)\<rceil>
        \<and> (\<forall>i < 10. length (ax_images (fig_axes lfig ! i)) = 1)
        \<and> (\<forall>i. 10 \<le> i \<and> i < 16 \<longrightarrow> ax_images (fig_axes lfig ! i) = []))
   \<and> (\<exists>cfig. save_image_collection \<lparr>shape = [5, 784], elems = replicate 3920 (0 :: int)\<rparr>
          ''digits'' = Inr cfig
        \<and> int (fig_rows cfig) = \<lceil>sqrt (real 5)\<rceil>
        \<and> 5 \<le> fig_rows cfig * fig_cols cfig
        \<and> fig_cells cfig = [0..<5])
   \<and> (\<exists>fig16. plot_conv_weights \<lparr>shape = [5, 5, 3, 16], elems = replicate 1200 (0 :: int)\<rparr>
          None = Inr fig16
        \<and> fig_rows fig16 = 4 \<and> fig_cols fig16 = 4 \<and> length (fig_axes fig16) = 16
        \<and> (\<forall>i < 16. \<exists>im. ax_images (fig_axes fig16 ! i) = [im]
              \<and> shape (img_data im) = [5, 5]))
   \<and> (\<exists>wfig. plot_weights \<lparr>shape = [784, 10], elems = replicate 7840 (0 :: int)\<rparr> [28, 28]
          = Inr wfig \<and> fig_rows wfig = 3 \<and> fig_cols wfig = 4)
   \<and> (\<exists>afig. plot_autoencoder_weights \<lparr>shape = [784, 100], elems = replicate 78400 (0 :: int)\<rparr>
          = Inr afig \<and> fig_rows afig = 10 \<and> fig_cols afig = 10)"
proof -
  let ?W10 = "\<lparr>shape = [5, 5, 3, 10], elems = replicate 750 (0 :: int)\<rparr>"
  let ?W16 = "\<lparr>shape = [5, 5, 3, 16], elems = replicate 1200 (0 :: int)\<rparr>"
  let ?L = "\<lparr>shape = [1, 4, 4, 10], elems = replicate 160 (0 :: int)\<rparr>"
  let ?I = "\<lparr>shape = [5, 784], elems = replicate 3920 (0 :: int)\<rparr>"
  let ?D = "\<lparr>shape = [784, 10], elems = replicate 7840 (0 :: int)\<rparr>"
  let ?A = "\<lparr>shape = [784, 100], elems = replicate 78400 (0 :: int)\<rparr>"
  note T = grid_sizing [where n = 10 and weights = ?W10 and input_channel = None
      and h = 5 and w = 5 and ci = 3 and f = 10
      and layer_output = ?L and lb = 1 and lh = 4 and lw = 4 and lf = 10
      and images = ?I and filename = "''digits''" and m = 5 and rest = "[784]"]
  note S = grid_sizing [where n = 5 and weights = ?W16 and input_channel = None
      and layer_output = ?L and images = ?I and auto_weights = ?A]
  note U = grid_sizing [where weights = ?D and img_shape = "[28, 28]"
      and layer_output = ?L and images = ?I and auto_weights = ?A]
  have sizes: "10 \<le> ceil_sqrt 10 * ceil_sqrt 10 \<and> int (ceil_sqrt 10) = \<lceil>sqrt (real 10)\<rceil>"
    by (rule T [THEN conjunct1])
  have "(0 :: nat) < 5" by simp
  from S [THEN conjunct2, THEN conjunct1, THEN mp, OF this]
  have grid5: "\<exists>r c. image_grid 5 = Inr (r, c) \<and> int r = \<lceil>sqrt (real 5)\<rceil>
          \<and> int c = \<lceil>real 5 / real r\<rceil> \<and> 5 \<le> r * c" .
  have hW: "wf_array ?W10 \<and> shape ?W10 = [5, 5, 3, 10] \<and> (0 :: nat) < 5 \<and> (0 :: nat) < 5
      \<and> (0 :: nat) < 3 \<and> (2 :: nat) \<le> 10"
    by (simp add: wf_array_def)
  from T [THEN conjunct2, THEN conjunct2, THEN conjunct2, THEN conjunct2, THEN conjunct2, THEN conjunct1, THEN mp, OF hW] obtain fig
    where run: "plot_conv_weights ?W10 None = Inr fig"
      and rows: "fig_rows fig = ceil_sqrt 10" and cols: "fig_cols fig = ceil_sqrt 10"
      and len: "length (fig_axes fig) = ceil_sqrt 10 * ceil_sqrt 10"
      and filled: "\<forall>i < 10. \<exists>im. ax_images (fig_axes fig ! i) = [im]
                  \<and> img_data im = \<lparr>shape = [5, 5],
                       elems = map (\<lambda>k. elems ?W10 ! ((k * 3 + 0) * 10 + i)) [0..<5 * 5]\<rparr>"
      and blank: "\<forall>i. 10 \<le> i \<and> i < ceil_sqrt 10 * ceil_sqrt 10 \<longrightarrow>
                  ax_images (fig_axes fig ! i) = []"
    by blast
  from T [where fig = fig, THEN conjunct2, THEN conjunct2, THEN conjunct1, THEN mp, OF run]
  have real_rows: "int (fig_rows fig) = \<lceil>sqrt (real 10)\<rceil>"
    by (auto simp: shape_at_def)
  have filled1: "\<forall>i < 10. length (ax_images (fig_axes fig ! i)) = 1"
    using filled by fastforce
  have conv: "\<exists>fig. plot_conv_weights ?W10 None = Inr fig
        \<and> fig_rows fig = 4 \<and> fig_cols fig = 4 \<and> length (fig_axes fig) = 16
        \<and> int (fig_rows fig) = \<lceil>sqrt (real 10)\<rceil>
        \<and> (\<forall>i < 10. length (ax_images (fig_axes fig ! i)) = 1)
        \<and> (\<forall>i. 10 \<le> i \<and> i < 16 \<longrightarrow> ax_images (fig_axes fig ! i) = [])"
    using run rows cols len real_rows filled1 blank
    by (intro exI [of _ fig]) (simp add: ceil_sqrt_10)
  have hL: "wf_array ?L \<and> shape ?L = [1, 4, 4, 10] \<and> (0 :: nat) < 1 \<and> (2 :: nat) \<le> 10"
    by (simp add: wf_array_def)
  from T [THEN conjunct2, THEN conjunct2, THEN conjunct2, THEN conjunct2, THEN conjunct2, THEN conjunct2, THEN conjunct1, THEN mp, OF hL] obtain lfig
    where lrun: "plot_conv_layer ?L = Inr lfig"
      and lrows: "fig_rows lfig = ceil_sqrt 10" and lcols: "fig_cols lfig = ceil_sqrt 10"
      and lfilled: "\<forall>i < 10. \<exists>im. ax_images (fig_axes lfig ! i) = [im]
                  \<and> img_data im = \<lparr>shape = [4, 4],
                       elems = map (\<lambda>k. elems ?L ! (k * 10 + i)) [0..<4 * 4]\<rparr>"
      and lblank: "\<forall>i. 10 \<le> i \<and> i < ceil_sqrt 10 * ceil_sqrt 10 \<longrightarrow>
                  ax_images (fig_axes lfig ! i) = []"
    by blast
  from T [where lfig = lfig, THEN conjunct2, THEN conjunct2, THEN conjunct2, THEN conjunct1, THEN mp, OF lrun]
  have lreal_rows: "int (fig_rows lfig) = \<lceil>sqrt (real 10)\<rceil>"
    by (auto simp: shape_at_def)
  have lfilled1: "\<forall>i < 10. length (ax_images (fig_axes lfig ! i)) = 1"
    using lfilled by fastforce
  have layer: "\<exists>lfig. plot_conv_layer ?L = Inr lfig
        \<and> fig_rows lfig = 4 \<and> fig_cols lfig = 4
        \<and> int (fig_rows lfig) = \<lceil>sqrt (real 10)\<rceil>
        \<and> (\<forall>i < 10. length (ax_images (fig_axes lfig ! i)) = 1)
        \<and> (\<forall>i. 10 \<le> i \<and> i < 16 \<longrightarrow> ax_images (fig_axes lfig ! i) = [])"
    using lrun lrows lcols lreal_rows lfilled1 lblank
    by (intro exI [of _ lfig]) (simp add: ceil_sqrt_10)
  have hI: "wf_array ?I \<and> shape ?I = 5 # [784] \<and> (0 :: nat) < 5 \<and> [784 :: nat] \<noteq> []
      \<and> prod_list [784 :: nat] = 784"
    by (simp add: wf_array_def)
  from T [THEN conjunct2, THEN conjunct2, THEN conjunct2, THEN conjunct2, THEN conjunct2, THEN conjunct2, THEN conjunct2, THEN conjunct1, THEN mp, OF hI] obtain cfig
    where crun: "save_image_collection ?I ''digits'' = Inr cfig" ..
  from T [where cfig = cfig, THEN conjunct2, THEN conjunct2, THEN conjunct2, THEN conjunct2, THEN conjunct1, THEN mp, OF crun]
  have coll: "\<exists>cfig. save_image_collection ?I ''digits'' = Inr cfig
        \<and> int (fig_rows cfig) = \<lceil>sqrt (real 5)\<rceil>
        \<and> 5 \<le> fig_rows cfig * fig_cols cfig
        \<and> fig_cells cfig = [0..<5]"
    using crun by (intro exI [of _ cfig]) (auto simp: shape_at_def)
  have h16: "wf_array ?W16 \<and> shape ?W16 = [5, 5, 3, 16]"
    by (simp add: wf_array_def)
  from S [THEN conjunct2, THEN conjunct2, THEN conjunct2, THEN conjunct2, THEN conjunct2, THEN conjunct2, THEN conjunct2, THEN conjunct2, THEN conjunct1, THEN mp, OF h16] obtain fig16
    where run16: "plot_conv_weights ?W16 None = Inr fig16"
      and g16: "fig_rows fig16 = 4" "fig_cols fig16 = 4" "length (fig_axes fig16) = 16"
      and each16: "\<forall>i < 16. \<exists>im. ax_images (fig_axes fig16 ! i) = [im]
                  \<and> shape (img_data im) = [5, 5]
                  \<and> length (elems (img_data im)) = 25
                  \<and> (\<forall>y < 5. \<forall>x < 5. elems (img_data im) ! (y * 5 + x)
                        = elems ?W16 ! (((y * 5 + x) * 3 + 0) * 16 + i))"
    by blast
  have shapes16: "\<forall>i < 16. \<exists>im. ax_images (fig_axes fig16 ! i) = [im]
              \<and> shape (img_data im) = [5, 5]"
    using each16 by blast
  have k16: "\<exists>fig16. plot_conv_weights ?W16 None = Inr fig16
        \<and> fig_rows fig16 = 4 \<and> fig_cols fig16 = 4 \<and> length (fig_axes fig16) = 16
        \<and> (\<forall>i < 16. \<exists>im. ax_images (fig_axes fig16 ! i) = [im]
              \<and> shape (img_data im) = [5, 5])"
    using run16 g16 shapes16 by (intro exI [of _ fig16] conjI)
  have "wf_array ?D" and "shape ?D = [784, 10]" and "(0 :: nat) < 784" and "(10 :: nat) \<le> 10"
    and "prod_list [28, 28 :: nat] = 784" and "image_shape_ok [28, 28]"
    by (simp_all add: wf_array_def image_shape_ok_def)
  from plot_weights_ok [OF this] obtain wfig
    where wrun: "plot_weights ?D [28, 28] = Inr wfig" ..
  from U [where wfig = wfig, THEN conjunct2, THEN conjunct2, THEN conjunct2, THEN conjunct2, THEN conjunct2, THEN conjunct2, THEN conjunct2, THEN conjunct2, THEN conjunct2, THEN conjunct1, THEN mp, OF wrun]
  have dense: "\<exists>wfig. plot_weights ?D [28, 28] = Inr wfig
      \<and> fig_rows wfig = 3 \<and> fig_cols wfig = 4"
    using wrun by (intro exI [of _ wfig]) simp
  have "wf_array ?A" and "shape ?A = [784, 100]" and "(100 :: nat) \<le> 100"
    by (simp_all add: wf_array_def)
  from autoencoder_hundred_units [OF this] obtain afig
    where arun: "plot_autoencoder_weights ?A = Inr afig" by blast
  from U [where afig = afig, THEN conjunct2, THEN conjunct2, THEN conjunct2, THEN conjunct2, THEN conjunct2, THEN conjunct2, THEN conjunct2, THEN conjunct2, THEN conjunct2, THEN conjunct2, THEN mp, OF arun]
  have auto: "\<exists>afig. plot_autoencoder_weights ?A = Inr afig
      \<and> fig_rows afig = 10 \<and> fig_cols afig = 10"
    using arun by (intro exI [of _ afig]) simp
  from sizes have s1: "10 \<le> ceil_sqrt 10 * ceil_sqrt 10"
    and s2: "int (ceil_sqrt 10) = \<lceil>sqrt (real 10)\<rceil>"
    by simp_all
  from s1 s2 grid5 conv layer coll k16 dense auto show ?thesis
    by (intro conjI)
qed

text \<open>
  The dense-weight visualizer on a matrix of 16 units: the run finishes on its fixed grid
  of 3 rows and 4 columns, which is neither \<open>ceil(sqrt(16)) = 4\<close> rows nor enough
  cells for 16 units.
\<close>

theorem plot_weights_fixed_grid:
  "\<not> isl (plot_weights \<lparr>shape = [784, 16], elems = replicate 12544 (0 :: int)\<rparr> [28, 28])
   \<and> shape_at \<lparr>shape = [784, 16], elems = replicate 12544 (0 :: int)\<rparr> 1 = Inr 16
   \<and> fig_rows (projr (plot_weights \<lparr>shape = [784, 16], elems = replicate 12544 (0 :: int)\<rparr>
        [28, 28])) = 3
   \<and> fig_cols (projr (plot_weights \<lparr>shape = [784, 16], elems = replicate 12544 (0 :: int)\<rparr>
        [28, 28])) = 4
   \<and> ceil_sqrt 16 = 4
   \<and> \<not> 16 \<le> fig_rows (projr (plot_weights
          \<lparr>shape = [784, 16], elems = replicate 12544 (0 :: int)\<rparr> [28, 28]))
        * fig_cols (projr (plot_weights
          \<lparr>shape = [784, 16], elems = replicate 12544 (0 :: int)\<rparr> [28, 28]))"
proof -
  let ?D = "\<lparr>shape = [784, 16], elems = replicate 12544 (0 :: int)\<rparr>"
  have "wf_array ?D" and "shape ?D = [784, 16]" and "(0 :: nat) < 784" and "(10 :: nat) \<le> 16"
    and "prod_list [28, 28 :: nat] = 784" and "image_shape_ok [28, 28]"
    by (simp_all add: wf_array_def image_shape_ok_def)
  from plot_weights_ok [OF this] obtain fig
    where run: "plot_weights ?D [28, 28] = Inr fig" ..
  from plot_weights_Inr [OF run] have "fig_rows fig = 3" and "fig_cols fig = 4"
    by blast+
  then show ?thesis
    by (simp add: run shape_at_def ceil_sqrt_16)
qed

text \<open>
  C3. Every finished run of \<open>plot_weights\<close> has a 3 by 4 grid in which exactly the ten
  panels 0 to 9 carry a caption, "Weights: 0" to "Weights: 9", and one image each, while
  the panels 10 and 11 stay blank, whatever the number of units is. The run finishes
  for every weight matrix with at least ten units whose rows fit the image shape, in
  particular for shape (784, 10) with image shape (28, 28); with fewer than ten units it
  ends in an error.
\<close>

theorem plot_weights_ten_labels:
  fixes weights :: "'a::linorder ndarray"
  shows "(plot_weights weights img_shape = Inr fig \<longrightarrow>
        fig_rows fig = 3 \<and> fig_cols fig = 4 \<and> length (fig_axes fig) = 12
      \<and> map (\<lambda>i. ax_xlabels (fig_axes fig ! i)) [0..<10] =
          [[''Weights: 0''], [''Weights: 1''], [''Weights: 2''], [''Weights: 3''],
           [''Weights: 4''], [''Weights: 5''], [''Weights: 6''], [''Weights: 7''],
           [''Weights: 8''], [''Weights: 9'']]
      \<and> (\<forall>i < 10. length (ax_images (fig_axes fig ! i)) = 1)
      \<and> (\<forall>i. 10 \<le> i \<and> i < 12 \<longrightarrow>
            ax_xlabels (fig_axes fig ! i) = [] \<and> ax_images (fig_axes fig ! i) = [])
      \<and> filter (\<lambda>i. ax_xlabels (fig_axes fig ! i) \<noteq> []) [0..<12] = [0..<10])
    \<and> (wf_array weights \<and> shape weights = [m, n] \<and> 0 < m \<and> 10 \<le> n
        \<and> prod_list img_shape = m \<and> image_shape_ok img_shape \<longrightarrow>
          (\<exists>fig'. plot_weights weights img_shape = Inr fig'))
    \<and> (wf_array weights \<and> shape weights = [m, n] \<and> 0 < m \<and> n < 10 \<longrightarrow>
          isl (plot_weights weights img_shape))"
proof (intro conjI impI)
  assume run: "plot_weights weights img_shape = Inr fig"
  from plot_weights_Inr [OF run] obtain lo hi
    where rows: "fig_rows fig = 3" and cols: "fig_cols fig = 4"
      and len: "length (fig_axes fig) = 12"
      and panels: "\<forall>i < 12. weights_panel weights img_shape lo hi i blank_axes
          = Inr (fig_axes fig ! i)"
    by blast
  have each: "i < 12 \<Longrightarrow>
      (i < 10 \<longrightarrow> ax_xlabels (fig_axes fig ! i) = [''Weights: '' @ str_nat i]
         \<and> length (ax_images (fig_axes fig ! i)) = 1)
      \<and> (10 \<le> i \<longrightarrow> ax_xlabels (fig_axes fig ! i) = [] \<and> ax_images (fig_axes fig ! i) = [])"
    for i
  proof -
    assume "i < 12"
    with panels have "weights_panel weights img_shape lo hi i blank_axes
        = Inr (fig_axes fig ! i)" by simp
    from weights_panel_Inr [OF this] show ?thesis by auto
  qed
  show "fig_rows fig = 3" by (rule rows)
  show "fig_cols fig = 4" by (rule cols)
  show "length (fig_axes fig) = 12" by (rule len)
  have "map (\<lambda>i. ax_xlabels (fig_axes fig ! i)) [0..<10]
      = map (\<lambda>i. [''Weights: '' @ str_nat i]) [0..<10]"
    using each by (intro map_cong refl) simp
  also have "\<dots> = map (\<lambda>s. [s]) (map (\<lambda>i. ''Weights: '' @ str_nat i) [0..<10])"
    by (simp add: comp_def)
  also have "\<dots> = [[''Weights: 0''], [''Weights: 1''], [''Weights: 2''], [''Weights: 3''],
           [''Weights: 4''], [''Weights: 5''], [''Weights: 6''], [''Weights: 7''],
           [''Weights: 8''], [''Weights: 9'']]"
    by (simp only: weight_captions) simp
  finally show "map (\<lambda>i. ax_xlabels (fig_axes fig ! i)) [0..<10] =
          [[''Weights: 0''], [''Weights: 1''], [''Weights: 2''], [''Weights: 3''],
           [''Weights: 4''], [''Weights: 5''], [''Weights: 6''], [''Weights: 7''],
           [''Weights: 8''], [''Weights: 9'']]" .
  show "\<forall>i < 10. length (ax_images (fig_axes fig ! i)) = 1"
    using each by simp
  show "\<forall>i. 10 \<le> i \<and> i < 12 \<longrightarrow>
            ax_xlabels (fig_axes fig ! i) = [] \<and> ax_images (fig_axes fig ! i) = []"
    using each by simp
  have labelled: "filter (\<lambda>i. ax_xlabels (fig_axes fig ! i) \<noteq> []) [0..<12]
      = filter (\<lambda>i. i < 10) [0..<12]"
  proof (rule filter_cong [OF refl])
    fix i assume "i \<in> set [0..<12]"
    then have "i < 12" by simp
    from each [OF this] show "(ax_xlabels (fig_axes fig ! i) \<noteq> []) = (i < 10)"
      by (cases "i < 10") simp_all
  qed
  have "[0..<10 + 2] = [0..<10] @ [10..<10 + 2]"
    by (rule upt_add_eq_append) simp
  then have parts: "[0..<12] = [0..<10] @ [10..<12]"
    by simp
  have "filter (\<lambda>i. i < 10) ([0..<10] @ [10..<12]) = [0..<10]"
    by (simp add: filter_empty_conv)
  then have "filter (\<lambda>i. i < 10) [0..<12] = [0..<10]"
    by (simp only: parts)
  with labelled
  show "filter (\<lambda>i. ax_xlabels (fig_axes fig ! i) \<noteq> []) [0..<12] = [0..<10]"
    by (simp only:)
next
  assume "wf_array weights \<and> shape weights = [m, n] \<and> 0 < m \<and> 10 \<le> n
        \<and> prod_list img_shape = m \<and> image_shape_ok img_shape"
  then show "\<exists>fig'. plot_weights weights img_shape = Inr fig'"
    using plot_weights_ok [of weights m n img_shape] by blast
next
  assume "wf_array weights \<and> shape weights = [m, n] \<and> 0 < m \<and> n < 10"
  then show "isl (plot_weights weights img_shape)"
    using plot_weights_too_few_units [of weights m n img_shape] by blast
qed

theorem plot_weights_ten_labels_witness:
  "wf_array \<lparr>shape = [784, 10], elems = replicate 7840 (0 :: int)\<rparr>
   \<and> shape \<lparr>shape = [784, 10], elems = replicate 7840 (0 :: int)\<rparr> = [784, 10]
   \<and> prod_list [28, 28 :: nat] = 784 \<and> image_shape_ok [28, 28]
   \<and> (\<exists>fig. plot_weights \<lparr>shape = [784, 10], elems = replicate 7840 (0 :: int)\<rparr> [28, 28]
          = Inr fig
        \<and> fig_rows fig = 3 \<and> fig_cols fig = 4 \<and> length (fig_axes fig) = 12
        \<and> map (\<lambda>i. ax_xlabels (fig_axes fig ! i)) [0..<10] =
            [[''Weights: 0''], [''Weights: 1''], [''Weights: 2''], [''Weights: 3''],
             [''Weights: 4''], [''Weights: 5''], [''Weights: 6''], [''Weights: 7''],
             [''Weights: 8''], [''Weights: 9'']]
        \<and> ax_xlabels (fig_axes fig ! 10) = [] \<and> ax_images (fig_axes fig ! 10) = []
        \<and> ax_xlabels (fig_axes fig ! 11) = [] \<and> ax_images (fig_axes fig ! 11) = [])
   \<and> isl (plot_weights \<lparr>shape = [2, 3], elems = [1, 2, 3, 4, 5, 6 :: int]\<rparr> [2])"
proof -
  let ?W = "\<lparr>shape = [784, 10], elems = replicate 7840 (0 :: int)\<rparr>"
  let ?V = "\<lparr>shape = [2, 3], elems = [1, 2, 3, 4, 5, 6 :: int]\<rparr>"
  have wf: "wf_array ?W" by (simp add: wf_array_def)
  have sh: "shape ?W = [784, 10]" by simp
  have pr: "prod_list [28, 28 :: nat] = 784" by simp
  have ok: "image_shape_ok [28, 28]" by (simp add: image_shape_ok_def)
  have hyp: "wf_array ?W \<and> shape ?W = [784, 10] \<and> (0 :: nat) < 784 \<and> (10 :: nat) \<le> 10
      \<and> prod_list [28, 28 :: nat] = 784 \<and> image_shape_ok [28, 28]"
    using wf sh pr ok by simp
  have hypV: "wf_array ?V \<and> shape ?V = [2, 3] \<and> (0 :: nat) < 2 \<and> (3 :: nat) < 10"
    by (simp add: wf_array_def)
  note T = plot_weights_ten_labels [where weights = ?W and img_shape = "[28, 28]"
      and m = 784 and n = 10]
  from T [THEN conjunct2, THEN conjunct1, THEN mp, OF hyp]
  obtain fig where run: "plot_weights ?W [28, 28] = Inr fig" ..
  note A = T [where fig = fig, THEN conjunct1, THEN mp, OF run]
  have rows: "fig_rows fig = 3" using A by (elim conjE)
  have cols: "fig_cols fig = 4" using A by (elim conjE)
  have len: "length (fig_axes fig) = 12" using A by (elim conjE)
  have caps: "map (\<lambda>i. ax_xlabels (fig_axes fig ! i)) [0..<10] =
            [[''Weights: 0''], [''Weights: 1''], [''Weights: 2''], [''Weights: 3''],
             [''Weights: 4''], [''Weights: 5''], [''Weights: 6''], [''Weights: 7''],
             [''Weights: 8''], [''Weights: 9'']]"
    using A by (elim conjE)
  have rest: "\<forall>i. 10 \<le> i \<and> i < 12 \<longrightarrow>
            ax_xlabels (fig_axes fig ! i) = [] \<and> ax_images (fig_axes fig ! i) = []"
    using A by (elim conjE)
  have b10: "ax_xlabels (fig_axes fig ! 10) = [] \<and> ax_images (fig_axes fig ! 10) = []"
    by (rule rest [rule_format, of 10]) simp
  have b11: "ax_xlabels (fig_axes fig ! 11) = [] \<and> ax_images (fig_axes fig ! 11) = []"
    by (rule rest [rule_format, of 11]) simp
  have few: "isl (plot_weights ?V [2])"
    by (rule plot_weights_ten_labels [where weights = ?V and img_shape = "[2]"
          and m = 2 and n = 3, THEN conjunct2, THEN conjunct2, THEN mp, OF hypV])
  have main: "\<exists>fig. plot_weights ?W [28, 28] = Inr fig
        \<and> fig_rows fig = 3 \<and> fig_cols fig = 4 \<and> length (fig_axes fig) = 12
        \<and> map (\<lambda>i. ax_xlabels (fig_axes fig ! i)) [0..<10] =
            [[''Weights: 0''], [''Weights: 1''], [''Weights: 2''], [''Weights: 3''],
             [''Weights: 4''], [''Weights: 5''], [''Weights: 6''], [''Weights: 7''],
             [''Weights: 8''], [''Weights: 9'']]
        \<and> ax_xlabels (fig_axes fig ! 10) = [] \<and> ax_images (fig_axes fig ! 10) = []
        \<and> ax_xlabels (fig_axes fig ! 11) = [] \<and> ax_images (fig_axes fig ! 11) = []"
    using run rows cols len caps b10 b11 by (intro exI [of _ fig] conjI) (elim conjE, assumption)+
  show ?thesis
    using wf sh pr ok main few by (intro conjI)
qed

lemma plot_images_two_samples:
  "\<not> isl (plot_images \<lparr>shape = [2, 4], elems = [0, 1, 2, 3, 4, 5, 6, 7 :: int]\<rparr>
      [[9, 1, 0, 0, 0, 0, 0, 0, 0, 0], [0, 8, 2, 0, 0, 0, 0, 0, 0, 0]]
      [[5, 1, 0, 0, 0, 0, 0, 0, 0, 0], [0, 4, 2, 0, 0, 0, 0, 0, 0, 0]]
      [0, 1] [0, 1] [2, 2] True)"
  by code_simp

text \<open>
  C9 (amended). In every finished run of \<open>plot_images\<close> both the probability and the
  logit panel of every row hold one bar chart of exactly 10 bars at the positions 0 to 9,
  coloured by the fixed palette of 10 colours. The bar call fails with a shape mismatch
  for a score vector whose length is neither 10 nor 1; a vector of length 1 is repeated
  to 10 equal bars. So a run finishes only when every per-sample probability and logit
  vector has length 10 or length 1.
\<close>

theorem plot_images_bars:
  fixes images :: "'a ndarray"
  shows "(plot_images images y_pred logits cls_true cls_pred img_shape reshape_arg = Inr fig
      \<longrightarrow> (\<exists>n. shape_at images 0 = Inr n \<and> (\<forall>i < n.
            i < length y_pred \<and> (length (y_pred ! i) = 10 \<or> length (y_pred ! i) = 1)
          \<and> i < length logits \<and> (length (logits ! i) = 10 \<or> length (logits ! i) = 1)
          \<and> (\<exists>b. ax_bars (fig_axes fig ! (i * 3 + 1)) = [b]
                \<and> bar_x b = [0, 1, 2, 3, 4, 5, 6, 7, 8, 9]
                \<and> length (bar_height b) = 10 \<and> bar_color b = bar_colors)
          \<and> (\<exists>b. ax_bars (fig_axes fig ! (i * 3 + 2)) = [b]
                \<and> bar_x b = [0, 1, 2, 3, 4, 5, 6, 7, 8, 9]
                \<and> length (bar_height b) = 10 \<and> bar_color b = bar_colors))))
    \<and> (length height \<noteq> 10 \<and> length height \<noteq> 1 \<longrightarrow>
          bar (arange 10) height bar_colors ax = Inl ValueError)
    \<and> length bar_colors = 10"
proof (intro conjI impI)
  assume run: "plot_images images y_pred logits cls_true cls_pred img_shape reshape_arg = Inr fig"
  from plot_images_Inr [OF run] obtain n where n: "shape_at images 0 = Inr n"
    and panels: "\<forall>i < n. bar_panel y_pred i blank_axes = Inr (fig_axes fig ! (i * 3 + 1))
              \<and> bar_panel logits i blank_axes = Inr (fig_axes fig ! (i * 3 + 2))"
    by blast
  have "\<forall>i < n.
            i < length y_pred \<and> (length (y_pred ! i) = 10 \<or> length (y_pred ! i) = 1)
          \<and> i < length logits \<and> (length (logits ! i) = 10 \<or> length (logits ! i) = 1)
          \<and> (\<exists>b. ax_bars (fig_axes fig ! (i * 3 + 1)) = [b]
                \<and> bar_x b = [0, 1, 2, 3, 4, 5, 6, 7, 8, 9]
                \<and> length (bar_height b) = 10 \<and> bar_color b = bar_colors)
          \<and> (\<exists>b. ax_bars (fig_axes fig ! (i * 3 + 2)) = [b]
                \<and> bar_x b = [0, 1, 2, 3, 4, 5, 6, 7, 8, 9]
                \<and> length (bar_height b) = 10 \<and> bar_color b = bar_colors)"
  proof (intro allI impI)
    fix i assume i: "i < n"
    from panels [rule_format, OF i]
    have p: "bar_panel y_pred i blank_axes = Inr (fig_axes fig ! (i * 3 + 1))"
      and l: "bar_panel logits i blank_axes = Inr (fig_axes fig ! (i * 3 + 2))"
      by simp_all
    from bar_panel_Inr [OF p] bar_panel_Inr [OF l]
    show "i < length y_pred \<and> (length (y_pred ! i) = 10 \<or> length (y_pred ! i) = 1)
          \<and> i < length logits \<and> (length (logits ! i) = 10 \<or> length (logits ! i) = 1)
          \<and> (\<exists>b. ax_bars (fig_axes fig ! (i * 3 + 1)) = [b]
                \<and> bar_x b = [0, 1, 2, 3, 4, 5, 6, 7, 8, 9]
                \<and> length (bar_height b) = 10 \<and> bar_color b = bar_colors)
          \<and> (\<exists>b. ax_bars (fig_axes fig ! (i * 3 + 2)) = [b]
                \<and> bar_x b = [0, 1, 2, 3, 4, 5, 6, 7, 8, 9]
                \<and> length (bar_height b) = 10 \<and> bar_color b = bar_colors)"
      by (intro conjI) (elim conjE, assumption)+
  qed
  with n show "\<exists>n. shape_at images 0 = Inr n \<and> (\<forall>i < n.
            i < length y_pred \<and> (length (y_pred ! i) = 10 \<or> length (y_pred ! i) = 1)
          \<and> i < length logits \<and> (length (logits ! i) = 10 \<or> length (logits ! i) = 1)
          \<and> (\<exists>b. ax_bars (fig_axes fig ! (i * 3 + 1)) = [b]
                \<and> bar_x b = [0, 1, 2, 3, 4, 5, 6, 7, 8, 9]
                \<and> length (bar_height b) = 10 \<and> bar_color b = bar_colors)
          \<and> (\<exists>b. ax_bars (fig_axes fig ! (i * 3 + 2)) = [b]
                \<and> bar_x b = [0, 1, 2, 3, 4, 5, 6, 7, 8, 9]
                \<and> length (bar_height b) = 10 \<and> bar_color b = bar_colors))"
    by (intro exI [of _ n] conjI)
next
  assume "length height \<noteq> 10 \<and> length height \<noteq> 1"
  then show "bar (arange 10) height bar_colors ax = Inl ValueError"
    by (simp add: bar_shape_mismatch)
next
  show "length bar_colors = 10" by (simp add: bar_colors_def)
qed

theorem plot_images_bars_witness:
  "(\<exists>fig. plot_images \<lparr>shape = [2, 4], elems = [0, 1, 2, 3, 4, 5, 6, 7 :: int]\<rparr>
        [[9, 1, 0, 0, 0, 0, 0, 0, 0, 0], [0, 8, 2, 0, 0, 0, 0, 0, 0, 0]]
        [[5, 1, 0, 0, 0, 0, 0, 0, 0, 0], [0, 4, 2, 0, 0, 0, 0, 0, 0, 0]]
        [0, 1] [0, 1] [2, 2] True = Inr fig
      \<and> (\<forall>i < 2.
            (\<exists>b. ax_bars (fig_axes fig ! (i * 3 + 1)) = [b]
                \<and> bar_x b = [0, 1, 2, 3, 4, 5, 6, 7, 8, 9]
                \<and> length (bar_height b) = 10 \<and> bar_color b = bar_colors)
          \<and> (\<exists>b. ax_bars (fig_axes fig ! (i * 3 + 2)) = [b]
                \<and> bar_x b = [0, 1, 2, 3, 4, 5, 6, 7, 8, 9]
                \<and> length (bar_height b) = 10 \<and> bar_color b = bar_colors)))
   \<and> (length [1, 2, 3 :: int] \<noteq> 10 \<and> length [1, 2, 3 :: int] \<noteq> 1)
   \<and> bar (arange 10) [1, 2, 3 :: int] bar_colors blank_axes = Inl ValueError"
proof -
  let ?X = "\<lparr>shape = [2, 4], elems = [0, 1, 2, 3, 4, 5, 6, 7 :: int]\<rparr>"
  let ?Y = "[[9, 1, 0, 0, 0, 0, 0, 0, 0, 0], [0, 8, 2, 0, 0, 0, 0, 0, 0, 0 :: int]]"
  let ?L = "[[5, 1, 0, 0, 0, 0, 0, 0, 0, 0], [0, 4, 2, 0, 0, 0, 0, 0, 0, 0 :: int]]"
  obtain fig where run: "plot_images ?X ?Y ?L [0, 1] [0, 1] [2, 2] True = Inr fig"
    using plot_images_two_samples
    by (cases "plot_images ?X ?Y ?L [0, 1] [0, 1] [2, 2] True") auto
  note T = plot_images_bars [where images = ?X and y_pred = ?Y and logits = ?L
      and cls_true = "[0, 1]" and cls_pred = "[0, 1]" and img_shape = "[2, 2]"
      and reshape_arg = True and fig = fig and height = "[1, 2, 3]" and ax = blank_axes]
  from T [THEN conjunct1, THEN mp, OF run] obtain n
    where n: "shape_at ?X 0 = Inr n"
      and rows: "\<forall>i < n.
            i < length ?Y \<and> (length (?Y ! i) = 10 \<or> length (?Y ! i) = 1)
          \<and> i < length ?L \<and> (length (?L ! i) = 10 \<or> length (?L ! i) = 1)
          \<and> (\<exists>b. ax_bars (fig_axes fig ! (i * 3 + 1)) = [b]
                \<and> bar_x b = [0, 1, 2, 3, 4, 5, 6, 7, 8, 9]
                \<and> length (bar_height b) = 10 \<and> bar_color b = bar_colors)
          \<and> (\<exists>b. ax_bars (fig_axes fig ! (i * 3 + 2)) = [b]
                \<and> bar_x b = [0, 1, 2, 3, 4, 5, 6, 7, 8, 9]
                \<and> length (bar_height b) = 10 \<and> bar_color b = bar_colors)"
    by blast
  have n2: "n = 2" using n by (simp add: shape_at_def)
  have bars: "\<forall>i < 2.
            (\<exists>b. ax_bars (fig_axes fig ! (i * 3 + 1)) = [b]
                \<and> bar_x b = [0, 1, 2, 3, 4, 5, 6, 7, 8, 9]
                \<and> length (bar_height b) = 10 \<and> bar_color b = bar_colors)
          \<and> (\<exists>b. ax_bars (fig_axes fig ! (i * 3 + 2)) = [b]
                \<and> bar_x b = [0, 1, 2, 3, 4, 5, 6, 7, 8, 9]
                \<and> length (bar_height b) = 10 \<and> bar_color b = bar_colors)"
  proof (intro allI impI)
    fix i :: nat assume "i < 2"
    then have "i < n" by (simp add: n2)
    from rows [rule_format, OF this]
    show "(\<exists>b. ax_bars (fig_axes fig ! (i * 3 + 1)) = [b]
                \<and> bar_x b = [0, 1, 2, 3, 4, 5, 6, 7, 8, 9]
                \<and> length (bar_height b) = 10 \<and> bar_color b = bar_colors)
          \<and> (\<exists>b. ax_bars (fig_axes fig ! (i * 3 + 2)) = [b]
                \<and> bar_x b = [0, 1, 2, 3, 4, 5, 6, 7, 8, 9]
                \<and> length (bar_height b) = 10 \<and> bar_color b = bar_colors)"
      by (intro conjI) (elim conjE, assumption)+
  qed
  have lens: "length [1, 2, 3 :: int] \<noteq> 10 \<and> length [1, 2, 3 :: int] \<noteq> 1"
    by simp
  from T [THEN conjunct2, THEN conjunct1, THEN mp, OF lens]
  have mismatch: "bar (arange 10) [1, 2, 3 :: int] bar_colors blank_axes = Inl ValueError" .
  from run bars have "\<exists>fig. plot_images ?X ?Y ?L [0, 1] [0, 1] [2, 2] True = Inr fig
      \<and> (\<forall>i < 2.
            (\<exists>b. ax_bars (fig_axes fig ! (i * 3 + 1)) = [b]
                \<and> bar_x b = [0, 1, 2, 3, 4, 5, 6, 7, 8, 9]
                \<and> length (bar_height b) = 10 \<and> bar_color b = bar_colors)
          \<and> (\<exists>b. ax_bars (fig_axes fig ! (i * 3 + 2)) = [b]
                \<and> bar_x b = [0, 1, 2, 3, 4, 5, 6, 7, 8, 9]
                \<and> length (bar_height b) = 10 \<and> bar_color b = bar_colors))"
    by (intro exI [of _ fig] conjI)
  with lens mismatch show ?thesis
    by (intro conjI) simp_all
qed

text \<open>Score vectors of length one: the run finishes and no bar call fails.\<close>

theorem plot_images_length_one_scores:
  "\<not> isl (plot_images \<lparr>shape = [2, 4], elems = [0, 1, 2, 3, 4, 5, 6, 7 :: int]\<rparr>
      [[1], [2]] [[3], [4]] [0, 1] [1, 1] [2, 2] True)
   \<and> length [1 :: int] \<noteq> 10
   \<and> bar (arange 10) [1 :: int] bar_colors blank_axes \<noteq> Inl ValueError"
  by code_simp

text \<open>
  C10. \<open>plot_autoencoder_weights\<close> bounds its loop by the second dimension of the
  transposed matrix, the length of a row, and not by the number of rows. For a layer of
  64 units, a weight matrix of shape (784, 64), the loop therefore runs on after the
  last unit and the function raises an IndexError instead of leaving the remaining 36
  cells of its 10 by 10 grid untouched.
\<close>

theorem autoencoder_64_units:
  "plot_autoencoder_weights \<lparr>shape = [784, 64], elems = replicate 50176 (0 :: int)\<rparr>
     = Inl IndexError"
  by (rule autoencoder_too_few_units [where u = 64]) (simp_all add: wf_array_def)

end
